theory Spec2Isabelle
  imports Main "HOL-Library.Multiset" "HOL-Library.List_Lexorder"
begin

section \<open>JavaScript values and documents\<close>

text \<open>
  The values found at the fields of a document. Numbers are the integers among the
  JavaScript numbers; \<open>NaN\<close>, the infinities and fractions are outside this model.
\<close>

datatype jsval = JUndefined | JNull | JBool bool | JNum int | JStr string

text \<open>
  A document is a plain object: its own properties in order, read with \<open>getProp\<close>. Reading
  a property that is absent gives \<open>undefined\<close>, as \<open>d[k]\<close> does.
\<close>

type_synonym doc = "(string \<times> jsval) list"

definition getProp :: "doc \<Rightarrow> string \<Rightarrow> jsval" where
  "getProp d k = (case map_of d k of None \<Rightarrow> JUndefined | Some v \<Rightarrow> v)"

definition delete_prop :: "string \<Rightarrow> doc \<Rightarrow> doc" where
  "delete_prop k d = filter (\<lambda>kv. fst kv \<noteq> k) d"

fun truthy :: "jsval \<Rightarrow> bool" where
  "truthy JUndefined = False"
| "truthy JNull = False"
| "truthy (JBool b) = b"
| "truthy (JNum n) = (n \<noteq> 0)"
| "truthy (JStr s) = (s \<noteq> [])"

text \<open>
  Two operations of the language are left to the host: the collation used by
  \<open>String.prototype.localeCompare\<close> and the reading of a string as a number. Both are
  parameters of the model.
\<close>

record js_env =
  localeCompare :: "string \<Rightarrow> string \<Rightarrow> int"
  strToNumber :: "string \<Rightarrow> int option"

text \<open>\<open>ToNumber\<close>; \<open>None\<close> is \<open>NaN\<close>.\<close>

fun toNumber :: "js_env \<Rightarrow> jsval \<Rightarrow> int option" where
  "toNumber env JUndefined = None"
| "toNumber env JNull = Some 0"
| "toNumber env (JBool b) = Some (if b then 1 else 0)"
| "toNumber env (JNum n) = Some n"
| "toNumber env (JStr s) = strToNumber env s"

text \<open>
  The relational operators \<open>a < b\<close> and \<open>a > b\<close> on primitive values: two strings are
  compared by code units, anything else as numbers, and a comparison with \<open>NaN\<close> is false.
\<close>

fun js_lt :: "js_env \<Rightarrow> jsval \<Rightarrow> jsval \<Rightarrow> bool" where
  "js_lt env (JStr s) (JStr t) = lexordp (\<lambda>c d. (of_char c :: nat) < of_char d) s t"
| "js_lt env a b =
     (case toNumber env a of None \<Rightarrow> False
      | Some x \<Rightarrow> (case toNumber env b of None \<Rightarrow> False | Some y \<Rightarrow> x < y))"

definition js_gt :: "js_env \<Rightarrow> jsval \<Rightarrow> jsval \<Rightarrow> bool" where
  "js_gt env a b = js_lt env b a"

section \<open>BinaryTree (BTree.js)\<close>

subsection \<open>The comparator\<close>

fun sortAsc :: "js_env \<Rightarrow> jsval \<Rightarrow> jsval \<Rightarrow> int" where
  "sortAsc env (JStr s) (JStr t) = localeCompare env s t"
| "sortAsc env a b = (if js_gt env a b then 1 else if js_lt env a b then -1 else 0)"

fun sortDesc :: "js_env \<Rightarrow> jsval \<Rightarrow> jsval \<Rightarrow> int" where
  "sortDesc env (JStr s) (JStr t) = localeCompare env t s"
| "sortDesc env a b = (if js_gt env a b then -1 else if js_lt env a b then 1 else 0)"

text \<open>One entry of the index array: \<open>{key: k, val: 1}\<close> or \<open>{key: k, val: -1}\<close>.\<close>

record ixfield =
  key :: string
  val :: jsval

text \<open>
  \<open>_compareFunc\<close>, given the node's \<open>_indexField\<close> (\<open>None\<close> when the index array is
  empty, so that \<open>_index[0]\<close> is undefined).
\<close>

definition compareFunc :: "js_env \<Rightarrow> ixfield option \<Rightarrow> doc \<Rightarrow> doc \<Rightarrow> int" where
  "compareFunc env indexData a b =
     (case indexData of
        None \<Rightarrow> 0
      | Some f \<Rightarrow>
          if val f = JNum 1 then sortAsc env (getProp a (key f)) (getProp b (key f))
          else if val f = JNum (- 1) then sortDesc env (getProp a (key f)) (getProp b (key f))
          else 0)"

subsection \<open>Nodes\<close>

text \<open>
  A node of the tree with its fields \<open>_store\<close>, \<open>_index\<close>, \<open>_data\<close>, \<open>_left\<close>,
  \<open>_middle\<close> and \<open>_right\<close>; a field that is not set is \<open>None\<close>.
\<close>

datatype btree =
  Node (store: "doc list") (index: "ixfield list") (data: "doc option")
       (left: "btree option") (middle: "btree option") (right: "btree option")

definition indexField :: "ixfield list \<Rightarrow> ixfield option" where
  "indexField ix = (case ix of [] \<Rightarrow> None | f # _ \<Rightarrow> Some f)"

text \<open>
  The constructor \<open>new BinaryTree(val, index)\<close>. With a value it stores the value as the
  node's data and calls \<open>insertMiddle\<close> on the fresh node, which pushes the value on the
  store and builds the middle chain for the rest of the index.
\<close>

fun BinaryTree :: "doc option \<Rightarrow> ixfield list \<Rightarrow> btree" where
  "BinaryTree None ix = Node [] ix None None None None"
| "BinaryTree (Some v) [] = Node [v] [] (Some v) None None None"
| "BinaryTree (Some v) (f # fs) =
     Node [v] (f # fs) (Some v) None
       (if fs = [] then None else Some (BinaryTree (Some v) fs)) None"

text \<open>
  \<open>insert\<close> of one document. The calls of \<open>insertLeft\<close>, \<open>insertMiddle\<close> and
  \<open>insertRight\<close> are written out in place, so that the recursion is on the child
  alone; the three methods are defined after it and \<open>insert1_methods\<close> gives \<open>insert\<close>
  in the source's shape. \<open>insert1\<close> returns the new node and the value the call returns:
  \<open>true\<close> when the node had no data, and \<open>undefined\<close> on the three comparator paths,
  which end without a \<open>return\<close>. The values returned by the three helpers are used by
  no caller.
\<close>

fun insert1 :: "js_env \<Rightarrow> btree \<Rightarrow> doc \<Rightarrow> btree \<times> jsval" where
  "insert1 env (Node st ix d l m r) v =
     (case d of
        None \<Rightarrow>
          ((case m of
              Some mt \<Rightarrow> Node (st @ [v]) ix (Some v) l (Some (fst (insert1 env mt v))) r
            | None \<Rightarrow>
                (if tl ix \<noteq> []
                 then Node (st @ [v]) ix (Some v) l (Some (BinaryTree (Some v) (tl ix))) r
                 else Node (st @ [v]) ix (Some v) l None r)),
           JBool True)
      | Some dv \<Rightarrow>
          (let comp = compareFunc env (indexField ix) v dv in
           if comp = - 1 then
             ((case l of
                 Some lt \<Rightarrow> Node st ix d (Some (fst (insert1 env lt v))) m r
               | None \<Rightarrow> Node st ix d (Some (BinaryTree (Some v) ix)) m r),
              JUndefined)
           else if comp = 0 then
             ((case m of
                 Some mt \<Rightarrow> Node (st @ [v]) ix d l (Some (fst (insert1 env mt v))) r
               | None \<Rightarrow>
                   (if tl ix \<noteq> []
                    then Node (st @ [v]) ix d l (Some (BinaryTree (Some v) (tl ix))) r
                    else Node (st @ [v]) ix d l None r)),
              JUndefined)
           else if comp = 1 then
             ((case r of
                 Some rt \<Rightarrow> Node st ix d l m (Some (fst (insert1 env rt v)))
               | None \<Rightarrow> Node st ix d l m (Some (BinaryTree (Some v) ix))),
              JUndefined)
           else (Node st ix d l m r, JUndefined)))"

definition insertLeft :: "js_env \<Rightarrow> btree \<Rightarrow> doc \<Rightarrow> btree" where
  "insertLeft env t v =
     (case t of Node st ix d l m r \<Rightarrow>
        (case l of
           Some lt \<Rightarrow> Node st ix d (Some (fst (insert1 env lt v))) m r
         | None \<Rightarrow> Node st ix d (Some (BinaryTree (Some v) ix)) m r))"

definition insertMiddle :: "js_env \<Rightarrow> btree \<Rightarrow> doc \<Rightarrow> btree" where
  "insertMiddle env t v =
     (case t of Node st ix d l m r \<Rightarrow>
        (case m of
           Some mt \<Rightarrow> Node (st @ [v]) ix d l (Some (fst (insert1 env mt v))) r
         | None \<Rightarrow>
             (if tl ix \<noteq> []
              then Node (st @ [v]) ix d l (Some (BinaryTree (Some v) (tl ix))) r
              else Node (st @ [v]) ix d l None r)))"

definition insertRight :: "js_env \<Rightarrow> btree \<Rightarrow> doc \<Rightarrow> btree" where
  "insertRight env t v =
     (case t of Node st ix d l m r \<Rightarrow>
        (case r of
           Some rt \<Rightarrow> Node st ix d l m (Some (fst (insert1 env rt v)))
         | None \<Rightarrow> Node st ix d l m (Some (BinaryTree (Some v) ix))))"

text \<open>
  \<open>insert\<close> of an array: the loop over the items, collecting each item under
  \<open>inserted\<close> when its own \<open>insert\<close> returned a truthy value and under \<open>failed\<close>
  otherwise.
\<close>

record insert_result =
  inserted :: "doc list"
  failed :: "doc list"

fun insertLoop :: "js_env \<Rightarrow> btree \<Rightarrow> doc list \<Rightarrow> insert_result \<Rightarrow> btree \<times> insert_result" where
  "insertLoop env t [] res = (t, res)"
| "insertLoop env t (v # vs) res =
     (case insert1 env t v of
        (t', ret) \<Rightarrow>
          if truthy ret then insertLoop env t' vs (res\<lparr>inserted := inserted res @ [v]\<rparr>)
          else insertLoop env t' vs (res\<lparr>failed := failed res @ [v]\<rparr>))"

definition insertArray :: "js_env \<Rightarrow> btree \<Rightarrow> doc list \<Rightarrow> btree \<times> insert_result" where
  "insertArray env t vs = insertLoop env t vs \<lparr>inserted = [], failed = []\<rparr>"

text \<open>
  \<open>inOrder(resultArr)\<close>: the array built so far is handed down to the children and
  extended; \<open>inOrder()\<close> starts from the empty array.
\<close>

fun inOrder :: "btree \<Rightarrow> doc list \<Rightarrow> doc list" where
  "inOrder (Node st ix d l m r) resultArr =
     (let a1 = (case l of Some lt \<Rightarrow> inOrder lt resultArr | None \<Rightarrow> resultArr);
          a2 = (case m of Some mt \<Rightarrow> inOrder mt a1 | None \<Rightarrow> a1 @ st);
          a3 = (case r of Some rt \<Rightarrow> inOrder rt a2 | None \<Rightarrow> a2)
      in a3)"

subsection \<open>Lookup\<close>

datatype error = TypeError | Thrown string

text \<open>
  Modelled from the spec: \<open>jParse\<close> and \<open>jStringify\<close>, which \<open>decouple\<close> calls, are
  not in BTree.js. Decoupling produces a copy of the query that shares nothing with
  the original; on values, that is the query itself.
\<close>

definition decouple :: "doc \<Rightarrow> doc" where
  "decouple q = q"

text \<open>
  \<open>_compareFunc(query, this._data)\<close> as \<open>lookup\<close> calls it: on a node without data the
  read \<open>b[indexData.key]\<close> of an ascending or descending index field is a TypeError.
\<close>

definition compareData :: "js_env \<Rightarrow> ixfield option \<Rightarrow> doc \<Rightarrow> doc option \<Rightarrow> error + int" where
  "compareData env indexData q d =
     (case d of
        Some dv \<Rightarrow> Inr (compareFunc env indexData q dv)
      | None \<Rightarrow>
          (case indexData of
             None \<Rightarrow> Inr 0
           | Some f \<Rightarrow> if val f = JNum 1 \<or> val f = JNum (- 1) then Inl TypeError else Inr 0))"

text \<open>\<open>xs.concat(ys)\<close> where computing \<open>ys\<close> may throw.\<close>

definition concatE :: "error + doc list \<Rightarrow> error + doc list \<Rightarrow> error + doc list" where
  "concatE xs ys =
     (case xs of Inl e \<Rightarrow> Inl e
      | Inr a \<Rightarrow> (case ys of Inl e \<Rightarrow> Inl e | Inr b \<Rightarrow> Inr (a @ b)))"

fun lookup :: "js_env \<Rightarrow> btree \<Rightarrow> doc \<Rightarrow> error + doc list" where
  "lookup env (Node st ix d l m r) query =
     (case indexField ix of
        None \<Rightarrow> Inl TypeError
      | Some f \<Rightarrow>
          if truthy (getProp query (key f)) then
            (case compareData env (Some f) query d of
               Inl e \<Rightarrow> Inl e
             | Inr result \<Rightarrow>
                 if result = - 1 then
                   (case l of Some lt \<Rightarrow> lookup env lt query | None \<Rightarrow> Inr [])
                 else if result = 0 then
                   (case m of
                      Some mt \<Rightarrow>
                        (case indexField (index mt) of
                           None \<Rightarrow> Inl TypeError
                         | Some mf \<Rightarrow>
                             if getProp (delete_prop (key f) (decouple query)) (key mf) \<noteq> JUndefined
                             then lookup env mt (delete_prop (key f) (decouple query))
                             else Inr (inOrder mt []))
                    | None \<Rightarrow> Inr st)
                 else if result = 1 then
                   (case r of Some rt \<Rightarrow> lookup env rt query | None \<Rightarrow> Inr [])
                 else Inr [])
          else
            concatE
              (concatE
                 (case l of Some lt \<Rightarrow> lookup env lt query | None \<Rightarrow> Inr [])
                 (case m of Some mt \<Rightarrow> lookup env mt query | None \<Rightarrow> Inr st))
              (case r of Some rt \<Rightarrow> lookup env rt query | None \<Rightarrow> Inr []))"

subsection \<open>A host for the examples\<close>

text \<open>
  A host whose collation is the order of the code units and which reads the strings of
  decimal digits as numbers (the empty string as 0) and any other string as \<open>NaN\<close>.
\<close>

definition codeUnitCompare :: "string \<Rightarrow> string \<Rightarrow> int" where
  "codeUnitCompare s t =
     (if lexordp (\<lambda>c d. (of_char c :: nat) < of_char d) s t then - 1
      else if s = t then 0 else 1)"

definition digitsToNumber :: "string \<Rightarrow> int option" where
  "digitsToNumber s =
     (if list_all (\<lambda>c. 48 \<le> (of_char c :: nat) \<and> (of_char c :: nat) \<le> 57) s
      then Some (foldl (\<lambda>n c. 10 * n + (int (of_char c :: nat) - 48)) 0 s)
      else None)"

definition hostEnv :: js_env where
  "hostEnv = \<lparr>localeCompare = codeUnitCompare, strToNumber = digitsToNumber\<rparr>"

section \<open>View (View.js)\<close>

subsection \<open>Queries and chain packets\<close>

text \<open>
  Query objects and option objects are plain data: a value, an object or an array.
  \<open>{pk: v}\<close> is \<open>JObj [(pk, JV v)]\<close>.
\<close>

datatype json = JV jsval | JObj "(string \<times> json) list" | JArr "json list"

text \<open>
  A chain packet, tagged by its \<open>type\<close>, with the payload that type carries: a document
  or an array of documents for \<open>insert\<close>; \<open>{query, update, options}\<close> for \<open>update\<close>;
  \<open>{query}\<close> for \<open>remove\<close>. \<open>Other\<close> is a packet of any other type.
\<close>

datatype chainPacket =
    SetData "doc list"
  | InsertDoc doc
  | InsertDocs "doc list"
  | Update json doc "json option"
  | Remove json
  | PrimaryKey string
  | Other string

fun packetType :: "chainPacket \<Rightarrow> string" where
  "packetType (SetData ds) = ''setData''"
| "packetType (InsertDoc d) = ''insert''"
| "packetType (InsertDocs ds) = ''insert''"
| "packetType (Update q u opts) = ''update''"
| "packetType (Remove q) = ''remove''"
| "packetType (PrimaryKey k) = ''primaryKey''"
| "packetType (Other t) = t"

record querySettings =
  query :: "json option"
  options :: "json option"

text \<open>The result of \<open>Collection.diff\<close>: \<open>{insert: [], update: [], remove: []}\<close>.\<close>

record diff =
  insert_d :: "doc list"
  update_d :: "doc list"
  remove_d :: "doc list"

subsection \<open>The transform function of the view's ReactorIO\<close>

text \<open>
  The function handed to \<open>new ReactorIO(source, this, ...)\<close> in \<open>View.prototype.from\<close>.
  It returns the packets it sends with \<open>this.chainSend\<close>, in order, and its return value.
  What it reads from objects whose code is not in View.js is given to it:
  \<open>isMatch d q o\<close> is \<open>self._privateData._match(d, q, o, 'and', {})\<close>,
  \<open>currentDiff q o\<close> is \<open>self._privateData.diff(self._from.subset(q, o))\<close> at the time of
  the call, \<open>pk\<close> is \<open>self._privateData.primaryKey()\<close> and \<open>isDropped\<close> is
  \<open>self.isDropped()\<close>.
\<close>

text \<open>The packets sent for \<open>diff.update\<close>: one per document, with the query \<open>{pk: doc[pk]}\<close>.\<close>

definition updatePackets :: "string \<Rightarrow> doc list \<Rightarrow> chainPacket list" where
  "updatePackets pk ds = map (\<lambda>d. Update (JObj [(pk, JV (getProp d pk))]) d None) ds"

text \<open>
  The query of the packet sent for \<open>diff.remove\<close>: the loop pushes
  \<open>{_id: diff.remove[i][pk]}\<close> on \<open>$or\<close>.
\<close>

definition removeQuery :: "string \<Rightarrow> doc list \<Rightarrow> json" where
  "removeQuery pk ds =
     JObj [(''$or'', JArr (map (\<lambda>d. JObj [(''_id'', JV (getProp d pk))]) ds))]"

definition ioTransform ::
  "(doc \<Rightarrow> json \<Rightarrow> json option \<Rightarrow> bool) \<Rightarrow> (json \<Rightarrow> json option \<Rightarrow> diff) \<Rightarrow> string \<Rightarrow>
   bool \<Rightarrow> querySettings \<Rightarrow> chainPacket \<Rightarrow> chainPacket list \<times> bool" where
  "ioTransform isMatch currentDiff pk isDropped qs packet =
     (if \<not> isDropped then
        (case query qs of
           None \<Rightarrow> ([], False)
         | Some q \<Rightarrow>
             (case packet of
                InsertDocs ds \<Rightarrow>
                  (let filteredData = filter (\<lambda>d. isMatch d q (options qs)) ds in
                   (if 0 < length filteredData then [InsertDocs filteredData] else [], True))
              | InsertDoc d \<Rightarrow>
                  (if isMatch d q (options qs) then [InsertDoc d] else [], True)
              | Update uq uu uo \<Rightarrow>
                  (let df = currentDiff q (options qs) in
                   if 0 < length (insert_d df) \<or> 0 < length (remove_d df) then
                     ((if 0 < length (insert_d df) then [InsertDocs (insert_d df)] else [])
                      @ (if 0 < length (update_d df) then updatePackets pk (update_d df) else [])
                      @ (if 0 < length (remove_d df)
                         then [Remove (removeQuery pk (remove_d df))] else []),
                      True)
                   else ([], False))
              | _ \<Rightarrow> ([], False)))
      else ([], False))"

subsection \<open>The insert case of the view's chain handler\<close>

text \<open>
  Modelled from the spec: \<open>Collection._insertHandle(data, index)\<close> is not in View.js.
  It splices the documents of \<open>data\<close> into the collection's \<open>_data\<close> at \<open>index\<close>.
\<close>

definition insertHandle :: "doc list \<Rightarrow> nat \<Rightarrow> doc list \<Rightarrow> doc list" where
  "insertHandle docs i xs = take i xs @ docs @ drop i xs"

text \<open>
  Modelled from the spec: \<open>ActiveBucket\<close> is not in View.js. The bucket keeps the
  documents it tracks in order; \<open>insert(doc)\<close> returns the index at which \<open>doc\<close> is to
  be placed for the sequence to stay sorted, after the documents that tie with it, and
  records the document there. \<open>notAfter x d\<close> says that \<open>x\<close> does not sort after \<open>d\<close>
  under the view's \<open>$orderBy\<close>.
\<close>

definition ActiveBucket_insert ::
  "(doc \<Rightarrow> doc \<Rightarrow> bool) \<Rightarrow> doc list \<Rightarrow> doc \<Rightarrow> nat \<times> doc list" where
  "ActiveBucket_insert notAfter bucket d =
     (let i = length (takeWhile (\<lambda>x. notAfter x d) bucket)
      in (i, take i bucket @ [d] @ drop i bucket))"

text \<open>
  The state the insert case works on: the view's active bucket and \<open>_privateData._data\<close>.
\<close>

record viewData =
  activeBucket :: "doc list"
  privateData :: "doc list"

text \<open>
  The loop of the ordered branch. \<open>arr\<close> is what is left of the array to loop over;
  \<open>packetData\<close> is \<open>chainPacket.data\<close>, the whole array, which is what the loop hands to
  \<open>_insertHandle\<close> on every round.
\<close>

fun orderedInsertLoop ::
  "(doc \<Rightarrow> doc \<Rightarrow> bool) \<Rightarrow> doc list \<Rightarrow> doc list \<Rightarrow> viewData \<Rightarrow> viewData" where
  "orderedInsertLoop notAfter packetData [] s = s"
| "orderedInsertLoop notAfter packetData (d # arr) s =
     (case ActiveBucket_insert notAfter (activeBucket s) d of
        (insertIndex, bucket') \<Rightarrow>
          orderedInsertLoop notAfter packetData arr
            \<lparr>activeBucket = bucket',
             privateData = insertHandle packetData insertIndex (privateData s)\<rparr>)"

text \<open>
  \<open>_chainHandler\<close> on an insert packet. \<open>orderBy\<close> is the comparator of
  \<open>options.$orderBy\<close> when that option is set. The payload is decoupled and made an
  array first.
\<close>

definition chainHandlerInsert ::
  "(doc \<Rightarrow> doc \<Rightarrow> bool) option \<Rightarrow> chainPacket \<Rightarrow> viewData \<Rightarrow> viewData" where
  "chainHandlerInsert orderBy packet s =
     (let packetData = (case packet of InsertDoc d \<Rightarrow> [decouple d]
                        | InsertDocs ds \<Rightarrow> map decouple ds | _ \<Rightarrow> [])
      in case orderBy of
           Some notAfter \<Rightarrow> orderedInsertLoop notAfter packetData packetData s
         | None \<Rightarrow>
             s\<lparr>privateData :=
                 insertHandle packetData (length (privateData s)) (privateData s)\<rparr>)"

subsection \<open>Views, collections and the database registry\<close>

text \<open>
  Objects refer to each other, so they live in a store and are named by their address.
  The fields kept are the ones the life cycle of a view reads and writes.
\<close>

type_synonym vid = nat
type_synonym cid = nat
type_synonym dbid = nat

text \<open>
  A collection: its database \<open>_db\<close>, the back-reference list \<open>_view\<close>, the views whose
  \<open>_collectionDroppedWrap\<close> listens to its \<open>drop\<close> event, the views whose ReactorIO is
  chained to it, and whether it has been dropped.
\<close>

record collection =
  c_db :: "dbid option"
  c_view :: "vid list"
  c_dropListeners :: "vid list"
  c_chain :: "vid list"
  c_dropped :: bool

text \<open>
  A view: \<open>_name\<close>, \<open>_state\<close>, \<open>_from\<close>, \<open>_io\<close> (the ReactorIO, known by the source it
  is chained to), \<open>_db\<close>, \<open>_privateData\<close>, \<open>_publicData\<close> and \<open>_transformEnabled\<close>.
  A field that is unset or deleted is \<open>None\<close>.
\<close>

record view =
  v_name :: string
  v_state :: "string option"
  v_from :: "cid option"
  v_io :: "cid option"
  v_db :: "dbid option"
  v_privateData :: "cid option"
  v_publicData :: "cid option"
  v_transformEnabled :: bool

text \<open>What leaves the objects: an event emitted on a collection, a callback called.\<close>

datatype event = Emit cid string | Callback bool bool

record world =
  views :: "vid \<Rightarrow> view"
  colls :: "cid \<Rightarrow> collection"
  dbView :: "dbid \<Rightarrow> string \<Rightarrow> vid option"
  nextView :: vid
  nextColl :: cid
  events :: "event list"

definition updColl :: "cid \<Rightarrow> (collection \<Rightarrow> collection) \<Rightarrow> world \<Rightarrow> world" where
  "updColl c f w = w\<lparr>colls := (colls w)(c := f (colls w c))\<rparr>"

definition updView :: "vid \<Rightarrow> (view \<Rightarrow> view) \<Rightarrow> world \<Rightarrow> world" where
  "updView v f w = w\<lparr>views := (views w)(v := f (views w v))\<rparr>"

text \<open>
  \<open>Collection.prototype.init\<close> as View.js extends it: \<open>_view\<close> starts empty. The
  new collection takes the next free address.
\<close>

definition Collection_new :: "world \<Rightarrow> cid \<times> world" where
  "Collection_new w =
     (nextColl w,
      w\<lparr>colls := (colls w)(nextColl w :=
            \<lparr>c_db = None, c_view = [], c_dropListeners = [], c_chain = [], c_dropped = False\<rparr>),
        nextColl := Suc (nextColl w)\<rparr>)"

definition Collection_addView :: "cid \<Rightarrow> vid \<Rightarrow> world \<Rightarrow> world" where
  "Collection_addView c v w = updColl c (\<lambda>x. x\<lparr>c_view := c_view x @ [v]\<rparr>) w"

text \<open>\<open>_removeView\<close>: \<open>indexOf\<close> and \<open>splice(index, 1)\<close> take out the first occurrence.\<close>

definition Collection_removeView :: "cid \<Rightarrow> vid \<Rightarrow> world \<Rightarrow> world" where
  "Collection_removeView c v w = updColl c (\<lambda>x. x\<lparr>c_view := remove1 v (c_view x)\<rparr>) w"

text \<open>
  Modelled from the spec: the event emitter mixin (\<open>on\<close>, \<open>off\<close>, \<open>emit\<close>) is not in
  View.js. \<open>on('drop', wrap)\<close> adds the view's listener, \<open>off('drop', wrap)\<close> removes it.
\<close>

definition Collection_onDrop :: "cid \<Rightarrow> vid \<Rightarrow> world \<Rightarrow> world" where
  "Collection_onDrop c v w = updColl c (\<lambda>x. x\<lparr>c_dropListeners := c_dropListeners x @ [v]\<rparr>) w"

definition Collection_offDrop :: "cid \<Rightarrow> vid \<Rightarrow> world \<Rightarrow> world" where
  "Collection_offDrop c v w =
     updColl c (\<lambda>x. x\<lparr>c_dropListeners := remove1 v (c_dropListeners x)\<rparr>) w"

text \<open>
  Modelled from the spec: \<open>ReactorIO\<close> is not in View.js. On construction it
  subscribes itself as a downstream of the source; \<open>drop()\<close> unsubscribes it.
\<close>

definition ReactorIO_new :: "cid \<Rightarrow> vid \<Rightarrow> world \<Rightarrow> world" where
  "ReactorIO_new src v w = updColl src (\<lambda>x. x\<lparr>c_chain := c_chain x @ [v]\<rparr>) w"

definition ReactorIO_drop :: "cid \<Rightarrow> vid \<Rightarrow> world \<Rightarrow> world" where
  "ReactorIO_drop src v w = updColl src (\<lambda>x. x\<lparr>c_chain := remove1 v (c_chain x)\<rparr>) w"

text \<open>
  \<open>_collectionDropped(collection)\<close>, called through \<open>_collectionDroppedWrap\<close> with the
  arguments of the event: when the argument is truthy, \<open>_from\<close> is deleted.
\<close>

definition View_collectionDropped :: "vid \<Rightarrow> bool \<Rightarrow> world \<Rightarrow> world" where
  "View_collectionDropped v collection w =
     (if collection then updView v (\<lambda>x. x\<lparr>v_from := None\<rparr>) w else w)"

text \<open>
  Modelled from the spec: \<open>emit('drop', obj)\<close> on a collection calls the listeners of
  its \<open>drop\<close> event, in the order they were added, with the object (truthy) as argument.
\<close>

definition Collection_emitDrop :: "cid \<Rightarrow> world \<Rightarrow> world" where
  "Collection_emitDrop c w =
     (fold (\<lambda>v. View_collectionDropped v True) (c_dropListeners (colls w c)) w)
       \<lparr>events := events w @ [Emit c ''drop'']\<rparr>"

text \<open>
  Modelled from the spec: \<open>Collection.prototype.drop\<close> is not in View.js. Dropping a
  collection marks it dropped and fires its \<open>drop\<close> event; a second drop returns false.
\<close>

definition Collection_drop :: "cid \<Rightarrow> world \<Rightarrow> bool \<times> world" where
  "Collection_drop c w =
     (if c_dropped (colls w c) then (False, w)
      else (True, Collection_emitDrop c (updColl c (\<lambda>x. x\<lparr>c_dropped := True\<rparr>) w)))"

text \<open>Modelled from the spec: \<open>isDropped()\<close> of the Common mixin tests the state.\<close>

definition isDropped :: "view \<Rightarrow> bool" where
  "isDropped x = (v_state x = Some ''dropped'')"

text \<open>\<open>publicData()\<close>.\<close>

definition publicData :: "view \<Rightarrow> cid option" where
  "publicData x = (if v_transformEnabled x then v_publicData x else v_privateData x)"

text \<open>
  \<open>new View(name)\<close>, the constructor called with a name and with neither a query nor
  options: \<open>init\<close> sets the name and creates the private collection, and its call
  \<open>this.query(undefined, undefined, false)\<close> changes nothing. The view takes the next
  free address.
\<close>

definition View_new :: "string \<Rightarrow> world \<Rightarrow> vid \<times> world" where
  "View_new name w =
     (case Collection_new w of
        (p, w1) \<Rightarrow>
          (nextView w1,
           w1\<lparr>views := (views w1)(nextView w1 :=
                 \<lparr>v_name = name, v_state = None, v_from = None, v_io = None, v_db = None,
                  v_privateData = Some p, v_publicData = None, v_transformEnabled = False\<rparr>),
              nextView := Suc (nextView w1)\<rparr>))"

text \<open>
  The \<open>db\<close> setter of the view: it hands the database to \<open>privateData()\<close> and
  \<open>publicData()\<close> and stores it in \<open>_db\<close>. Calling \<open>.db\<close> on a collection that is not
  there is a TypeError.
\<close>

definition View_db :: "vid \<Rightarrow> dbid \<Rightarrow> world \<Rightarrow> error + world" where
  "View_db v db w =
     (case v_privateData (views w v) of
        None \<Rightarrow> Inl TypeError
      | Some p \<Rightarrow>
          (case publicData (views w v) of
             None \<Rightarrow> Inl TypeError
           | Some pub \<Rightarrow>
               Inr (updView v (\<lambda>x. x\<lparr>v_db := Some db\<rparr>)
                     (updColl pub (\<lambda>x. x\<lparr>c_db := Some db\<rparr>)
                       (updColl p (\<lambda>x. x\<lparr>c_db := Some db\<rparr>) w)))))"

text \<open>
  \<open>View.prototype.from(source)\<close> with a collection or a view as source. A view as
  source stands for its private collection. The steps after the ReactorIO is created
  read the source and fill the view's private collection; among the fields kept here
  they only need \<open>_privateData\<close> to be there.
\<close>

datatype source = SourceCollection cid | SourceView vid

definition View_from :: "vid \<Rightarrow> source \<Rightarrow> world \<Rightarrow> error + world" where
  "View_from v source w =
     (let w1 = (case v_from (views w v) of
                  Some old \<Rightarrow> updView v (\<lambda>x. x\<lparr>v_from := None\<rparr>) (Collection_offDrop old v w)
                | None \<Rightarrow> w);
          w2 = (case v_io (views w1 v) of
                  Some src \<Rightarrow> updView v (\<lambda>x. x\<lparr>v_io := None\<rparr>) (ReactorIO_drop src v w1)
                | None \<Rightarrow> w1)
      in case (case source of
                 SourceCollection c \<Rightarrow> Some c
               | SourceView sv \<Rightarrow> v_privateData (views w2 sv)) of
           None \<Rightarrow> Inl TypeError
         | Some s \<Rightarrow>
             (let w3 = Collection_onDrop s v (updView v (\<lambda>x. x\<lparr>v_from := Some s\<rparr>) w2);
                  w4 = updView v (\<lambda>x. x\<lparr>v_io := Some s\<rparr>) (ReactorIO_new s v w3)
              in case v_privateData (views w4 v) of
                   None \<Rightarrow> Inl TypeError
                 | Some p \<Rightarrow> Inr w4))"

text \<open>
  \<open>View.prototype.drop(callback)\<close>. The guarded blocks of the method come first, each
  under its own name: the block on \<open>_from\<close>, the block on \<open>_io\<close>, the blocks on
  \<open>_privateData\<close> and \<open>_publicData\<close>, and the block on the registry \<open>_db._view\<close>,
  which runs when \<open>_db\<close> is set and \<open>_name\<close> is truthy.
\<close>

definition drop_from :: "vid \<Rightarrow> world \<Rightarrow> world" where
  "drop_from v w =
     (case v_from (views w v) of
        Some s \<Rightarrow> Collection_removeView s v (Collection_offDrop s v w)
      | None \<Rightarrow> w)"

definition drop_io :: "vid \<Rightarrow> world \<Rightarrow> world" where
  "drop_io v w =
     (case v_io (views w v) of Some src \<Rightarrow> ReactorIO_drop src v w | None \<Rightarrow> w)"

definition drop_privateData :: "vid \<Rightarrow> world \<Rightarrow> world" where
  "drop_privateData v w =
     (case v_privateData (views w v) of Some p \<Rightarrow> snd (Collection_drop p w) | None \<Rightarrow> w)"

definition drop_publicData :: "vid \<Rightarrow> world \<Rightarrow> world" where
  "drop_publicData v w =
     (case v_publicData (views w v) of
        Some pub \<Rightarrow>
          if v_publicData (views w v) \<noteq> v_privateData (views w v)
          then snd (Collection_drop pub w) else w
      | None \<Rightarrow> w)"

definition drop_registry :: "vid \<Rightarrow> world \<Rightarrow> world" where
  "drop_registry v w =
     (case v_db (views w v) of
        Some db \<Rightarrow>
          if v_name (views w v) \<noteq> []
          then w\<lparr>dbView := (dbView w)(db := (dbView w db)(v_name (views w v) := None))\<rparr>
          else w
      | None \<Rightarrow> w)"

text \<open>
  The method itself; \<open>callback\<close> says whether one was passed. The view's \<open>emit\<close> is the
  \<open>emit\<close> of its private collection, a TypeError when that is not there. The fields
  deleted at the end are \<open>_from\<close>, \<open>_privateData\<close>, \<open>_io\<close> and \<open>_db\<close> (and
  \<open>_chain\<close>, \<open>_listeners\<close> and \<open>_querySettings\<close>, which are not kept here).
\<close>

definition View_drop :: "vid \<Rightarrow> bool \<Rightarrow> world \<Rightarrow> error + bool \<times> world" where
  "View_drop v callback w =
     (if \<not> isDropped (views w v) then
        (let w1 = drop_from v w;
             w2 = updView v (\<lambda>x. x\<lparr>v_state := Some ''dropped''\<rparr>) w1;
             w3 = drop_io v w2;
             w4 = drop_privateData v w3;
             w5 = drop_publicData v w4;
             w6 = drop_registry v w5
         in case v_privateData (views w6 v) of
              None \<Rightarrow> Inl TypeError
            | Some p \<Rightarrow>
                (let w7 = Collection_emitDrop p w6;
                     w8 = (if callback then w7\<lparr>events := events w7 @ [Callback False True]\<rparr>
                           else w7);
                     w9 = updView v (\<lambda>x. x\<lparr>v_from := None, v_privateData := None,
                                           v_io := None, v_db := None\<rparr>) w8
                 in Inr (True, w9)))
      else Inr (False, w))"

text \<open>
  \<open>Collection.prototype.view(name)\<close>, called with a name and with neither a query nor
  options. Without a database the method returns nothing. The text thrown ends with the
  name.
\<close>

definition Collection_view :: "cid \<Rightarrow> string \<Rightarrow> world \<Rightarrow> error + vid option \<times> world" where
  "Collection_view c name w =
     (case c_db (colls w c) of
        None \<Rightarrow> Inr (None, w)
      | Some db \<Rightarrow>
          (if dbView w db name = None then
             (case View_new name w of
                (v, w1) \<Rightarrow>
                  (case View_db v db w1 of
                     Inl e \<Rightarrow> Inl e
                   | Inr w2 \<Rightarrow>
                       (case View_from v (SourceCollection c) w2 of
                          Inl e \<Rightarrow> Inl e
                        | Inr w3 \<Rightarrow>
                            Inr (Some v, updColl c (\<lambda>x. x\<lparr>c_view := c_view x @ [v]\<rparr>) w3))))
           else
             Inl (Thrown ('' Cannot create a view using this collection because a view with this name already exists: '' @ name))))"

text \<open>
  \<open>Db.prototype.view(viewName)\<close> with a name, and \<open>Db.prototype.viewExists\<close>. The
  \<open>create\<close> event that \<open>view\<close> emits on the database is not among the events kept.
\<close>

definition Db_view :: "dbid \<Rightarrow> string \<Rightarrow> world \<Rightarrow> error + vid \<times> world" where
  "Db_view db viewName w =
     (case dbView w db viewName of
        Some v \<Rightarrow> Inr (v, w)
      | None \<Rightarrow>
          (case View_new viewName w of
             (v, w1) \<Rightarrow>
               (case View_db v db w1 of
                  Inl e \<Rightarrow> Inl e
                | Inr w2 \<Rightarrow>
                    Inr (v, w2\<lparr>dbView := (dbView w2)(db := (dbView w2 db)(viewName \<mapsto> v))\<rparr>))))"

definition Db_viewExists :: "dbid \<Rightarrow> string \<Rightarrow> world \<Rightarrow> bool" where
  "Db_viewExists db viewName w = (dbView w db viewName \<noteq> None)"

text \<open>A world with nothing in it, for the examples.\<close>

definition emptyWorld :: world where
  "emptyWorld =
     \<lparr>views = (\<lambda>_. \<lparr>v_name = [], v_state = None, v_from = None, v_io = None, v_db = None,
                    v_privateData = None, v_publicData = None, v_transformEnabled = False\<rparr>),
      colls = (\<lambda>_. \<lparr>c_db = None, c_view = [], c_dropListeners = [], c_chain = [],
                    c_dropped = False\<rparr>),
      dbView = (\<lambda>_ _. None), nextView = 0, nextColl = 0, events = []\<rparr>"

text \<open>The empty world with one collection, at address 0, attached to database 0.\<close>

definition oneCollection :: world where
  "oneCollection = updColl 0 (\<lambda>x. x\<lparr>c_db := Some 0\<rparr>) (snd (Collection_new emptyWorld))"

text \<open>
  That world after \<open>db.view('v')\<close> on database 0, \<open>from\<close> on the collection and
  \<open>_addView\<close>: view 0, registered under its name, bound to collection 0, with its
  private collection at address 1.
\<close>

definition boundWorld :: world where
  "boundWorld =
     (case Db_view 0 ''v'' oneCollection of
        Inr (v, w) \<Rightarrow>
          (case View_from v (SourceCollection 0) w of
             Inr w' \<Rightarrow> Collection_addView 0 v w'
           | Inl e \<Rightarrow> w)
      | Inl e \<Rightarrow> oneCollection)"

subsection \<open>Notions used to state and prove the order of the traversal\<close>

text \<open>
  The compound comparator that an index array induces: the comparator of the first
  field on which the two documents do not compare equal, and 0 when there is none.
\<close>

fun compoundCompare :: "js_env \<Rightarrow> ixfield list \<Rightarrow> doc \<Rightarrow> doc \<Rightarrow> int" where
  "compoundCompare env [] a b = 0"
| "compoundCompare env (f # fs) a b =
     (if compareFunc env (Some f) a b \<noteq> 0 then compareFunc env (Some f) a b
      else compoundCompare env fs a b)"

text \<open>The three-way comparison of a linear order.\<close>

definition threeWay :: "'k::linorder \<Rightarrow> 'k \<Rightarrow> int" where
  "threeWay x y = (if x < y then - 1 else if x = y then 0 else 1)"

text \<open>
  The key of a document under an index array, given a rank for each field: the list of
  its ranks, compared lexicographically.
\<close>

definition compoundKey :: "(ixfield \<Rightarrow> doc \<Rightarrow> 'k) \<Rightarrow> ixfield list \<Rightarrow> doc \<Rightarrow> 'k list" where
  "compoundKey rank ix d = map (\<lambda>f. rank f d) ix"

text \<open>
  The tree of a sequence of documents, given at once: the first document is the node's
  data; the documents that compare equal to it are the store and, on the rest of the
  index, the middle child; those that compare as -1 and as 1 are the left and the right
  child. It is what inserting the documents one after another builds
  (\<open>insertArray_treeOf\<close>).
\<close>

function treeOf :: "js_env \<Rightarrow> ixfield list \<Rightarrow> doc list \<Rightarrow> btree option" where
  "treeOf env ix [] = None"
| "treeOf env ix (d # xs) =
     Some (Node (d # filter (\<lambda>x. compareFunc env (indexField ix) x d = 0) xs) ix (Some d)
       (treeOf env ix (filter (\<lambda>x. compareFunc env (indexField ix) x d = - 1) xs))
       (if tl ix = [] then None
        else treeOf env (tl ix) (d # filter (\<lambda>x. compareFunc env (indexField ix) x d = 0) xs))
       (treeOf env ix (filter (\<lambda>x. compareFunc env (indexField ix) x d = 1) xs)))"
  by pat_completeness auto
termination
proof (relation "measures [\<lambda>(env, ix, xs). length ix, \<lambda>(env, ix, xs). length xs]")
  show "wf (measures [\<lambda>(env :: js_env, ix :: ixfield list, xs :: doc list). length ix,
                      \<lambda>(env, ix, xs). length xs])"
    by simp
next
  fix env :: js_env and ix :: "ixfield list" and d :: doc and xs :: "doc list"
  show "((env, ix, filter (\<lambda>x. compareFunc env (indexField ix) x d = - 1) xs), env, ix, d # xs)
        \<in> measures [\<lambda>(env, ix, xs). length ix, \<lambda>(env, ix, xs). length xs]"
    by (simp add: less_Suc_eq_le)
  show "((env, ix, filter (\<lambda>x. compareFunc env (indexField ix) x d = 1) xs), env, ix, d # xs)
        \<in> measures [\<lambda>(env, ix, xs). length ix, \<lambda>(env, ix, xs). length xs]"
    by (simp add: less_Suc_eq_le)
  assume "tl ix \<noteq> []"
  then show "((env, tl ix, d # filter (\<lambda>x. compareFunc env (indexField ix) x d = 0) xs),
              env, ix, d # xs)
        \<in> measures [\<lambda>(env, ix, xs). length ix, \<lambda>(env, ix, xs). length xs]"
    by (cases ix) simp_all
qed

text \<open>\<open>inOrder()\<close> of a child that may be absent.\<close>

definition inOrderOpt :: "btree option \<Rightarrow> doc list" where
  "inOrderOpt t = (case t of None \<Rightarrow> [] | Some x \<Rightarrow> inOrder x [])"

text \<open>
  A rank for documents whose indexed fields hold numbers: the number, negated for a
  descending field.
\<close>

definition numberRank :: "ixfield \<Rightarrow> doc \<Rightarrow> int" where
  "numberRank f d =
     (case getProp d (key f) of
        JNum n \<Rightarrow> (if val f = JNum (- 1) then - n else n)
      | _ \<Rightarrow> 0)"

section \<open>Properties of the BinaryTree\<close>

subsection \<open>The insert methods\<close>

text \<open>\<open>insert\<close> of one document, written with the three methods as the source has it.\<close>

lemma insert1_methods:
  "insert1 env (Node st ix d l m r) v =
     (case d of
        None \<Rightarrow> (insertMiddle env (Node st ix (Some v) l m r) v, JBool True)
      | Some dv \<Rightarrow>
          (let comp = compareFunc env (indexField ix) v dv in
           if comp = - 1 then (insertLeft env (Node st ix d l m r) v, JUndefined)
           else if comp = 0 then (insertMiddle env (Node st ix d l m r) v, JUndefined)
           else if comp = 1 then (insertRight env (Node st ix d l m r) v, JUndefined)
           else (Node st ix d l m r, JUndefined)))"
  by (simp add: insertLeft_def insertMiddle_def insertRight_def Let_def split: option.split)

subsection \<open>The comparator on undefined values\<close>

lemma js_lt_undefined: "js_lt env JUndefined b = False" "js_lt env a JUndefined = False"
proof -
  show "js_lt env JUndefined b = False"
    by (cases b) simp_all
  show "js_lt env a JUndefined = False"
    by (cases a) (simp_all split: option.split)
qed

lemma sortAsc_undefined: "sortAsc env JUndefined b = 0" "sortAsc env a JUndefined = 0"
proof -
  show "sortAsc env JUndefined b = 0"
    by (cases b) (simp_all add: js_gt_def split: option.split)
  show "sortAsc env a JUndefined = 0"
    by (cases a) (simp_all add: js_gt_def split: option.split)
qed

lemma sortDesc_undefined: "sortDesc env JUndefined b = 0" "sortDesc env a JUndefined = 0"
proof -
  show "sortDesc env JUndefined b = 0"
    by (cases b) (simp_all add: js_gt_def split: option.split)
  show "sortDesc env a JUndefined = 0"
    by (cases a) (simp_all add: js_gt_def split: option.split)
qed

text \<open>
  Claim C9, as the code has it. Neither \<open>sortAsc\<close> nor \<open>sortDesc\<close> treats an undefined
  value apart: both relational tests are false on it, so the comparator returns 0. At any
  index level and in either direction, a document whose value at the indexed field is
  undefined compares equal to every document, whichever side it stands on; it is never
  less than or greater than a document with a defined value.
\<close>

theorem compareFunc_undefined_equal:
  "getProp a (key f) = JUndefined \<or> getProp b (key f) = JUndefined \<Longrightarrow>
   compareFunc env (Some f) a b = 0"
  unfolding compareFunc_def
  by (elim disjE) (simp_all add: sortAsc_undefined sortDesc_undefined del: sortAsc.simps sortDesc.simps)

theorem compareFunc_undefined_equal_witness:
  "(getProp [] (key \<lparr>key = ''a'', val = JNum 1\<rparr>) = JUndefined
      \<or> getProp [(''a'', JNum 5)] (key \<lparr>key = ''a'', val = JNum 1\<rparr>) = JUndefined)
   \<and> compareFunc hostEnv (Some \<lparr>key = ''a'', val = JNum 1\<rparr>) [] [(''a'', JNum 5)] = 0"
  using compareFunc_undefined_equal [of "[]" "\<lparr>key = ''a'', val = JNum 1\<rparr>" "[(''a'', JNum 5)]" hostEnv]
  by (simp add: getProp_def)

text \<open>
  The claim as it was stated fails: in ascending direction a document without the field
  is not less than one with the value 5, and in descending direction it is not greater.
\<close>

theorem undefined_less_than_defined_counterexample:
  "getProp [] ''a'' = JUndefined \<and> getProp [(''a'', JNum 5)] ''a'' \<noteq> JUndefined
   \<and> \<not> compareFunc hostEnv (Some \<lparr>key = ''a'', val = JNum 1\<rparr>) [] [(''a'', JNum 5)] < 0
   \<and> \<not> compareFunc hostEnv (Some \<lparr>key = ''a'', val = JNum (- 1)\<rparr>) [] [(''a'', JNum 5)] > 0"
  by (simp add: compareFunc_def getProp_def js_gt_def)

subsection \<open>What a batch insert reports\<close>

text \<open>
  Claim C3 at a batch of two well-formed documents inserted into an empty tree indexed
  on \<open>a\<close> ascending. The second document is placed in the tree (it is the second item
  of the in-order traversal), yet its \<open>insert\<close> returned \<open>undefined\<close>, and the batch
  reports it under \<open>failed\<close>.
\<close>

theorem insertArray_reports_placed_document_failed:
  "snd (insertArray hostEnv (BinaryTree None [\<lparr>key = ''a'', val = JNum 1\<rparr>])
          [[(''a'', JNum 1)], [(''a'', JNum 2)]])
     = \<lparr>inserted = [[(''a'', JNum 1)]], failed = [[(''a'', JNum 2)]]\<rparr>
   \<and> inOrder (fst (insertArray hostEnv (BinaryTree None [\<lparr>key = ''a'', val = JNum 1\<rparr>])
          [[(''a'', JNum 1)], [(''a'', JNum 2)]])) []
     = [[(''a'', JNum 1)], [(''a'', JNum 2)]]"
  by (simp add: insertArray_def compareFunc_def indexField_def getProp_def js_gt_def)


text \<open>
  The same for every batch: on a tree that already holds a document every item of the
  batch is reported under \<open>failed\<close>, and on an empty tree every item but the first.
\<close>

lemma insert1_returns_undefined:
  "snd (insert1 env (Node st ix (Some dv) l m r) v) = JUndefined"
  by (simp add: Let_def)

lemma insert1_keeps_data:
  "data t \<noteq> None \<Longrightarrow> data (fst (insert1 env t v)) \<noteq> None"
  by (cases t) (auto simp add: Let_def split: option.split)

lemma insertLoop_all_failed:
  "data t \<noteq> None \<Longrightarrow>
   snd (insertLoop env t vs res) = res\<lparr>failed := failed res @ vs\<rparr>"
proof (induction vs arbitrary: t res)
  case Nil
  show ?case by simp
next
  case (Cons v vs)
  obtain st ix dv l m r where t: "t = Node st ix (Some dv) l m r"
    using Cons.prems by (cases t) auto
  have ret: "snd (insert1 env t v) = JUndefined"
    unfolding t by (rule insert1_returns_undefined)
  have "data (fst (insert1 env t v)) \<noteq> None"
    using Cons.prems by (rule insert1_keeps_data)
  then have "snd (insertLoop env (fst (insert1 env t v)) vs (res\<lparr>failed := failed res @ [v]\<rparr>))
             = res\<lparr>failed := failed res @ [v] @ vs\<rparr>"
    by (simp add: Cons.IH)
  then show ?case
    using ret by (simp add: split_beta del: insert1.simps)
qed

lemma insertArray_on_empty_tree:
  "snd (insertArray env (BinaryTree None ix) (v # vs)) = \<lparr>inserted = [v], failed = vs\<rparr>"
proof -
  have r: "snd (insert1 env (BinaryTree None ix) v) = JBool True"
    by simp
  have "data (fst (insert1 env (BinaryTree None ix) v)) \<noteq> None"
    by (simp split: option.split)
  then have "snd (insertLoop env (fst (insert1 env (BinaryTree None ix) v)) vs
                 \<lparr>inserted = [v], failed = []\<rparr>) = \<lparr>inserted = [v], failed = vs\<rparr>"
    by (simp add: insertLoop_all_failed)
  then show ?thesis
    using r by (simp add: insertArray_def split_beta del: insert1.simps BinaryTree.simps)
qed

lemma insertArray_on_tree_with_data:
  "data t \<noteq> None \<Longrightarrow> snd (insertArray env t vs) = \<lparr>inserted = [], failed = vs\<rparr>"
  by (simp add: insertArray_def insertLoop_all_failed)

subsection \<open>Lookup with a falsy value in the query\<close>

text \<open>
  Claim C10. When the value of the query at the node's index field is 0, the empty
  string, \<open>false\<close> or \<open>null\<close>, \<open>lookup\<close> does not compare the query with the node's
  data: whatever the data is, the result is the lookup in the left child, then the
  lookup in the middle child (or the node's store when there is none), then the lookup
  in the right child.
\<close>

theorem lookup_falsy_gathers:
  assumes "indexField ix = Some f"
    and "getProp q (key f) \<in> {JNum 0, JStr [], JBool False, JNull}"
  shows "lookup env (Node st ix d l m r) q =
           concatE
             (concatE
                (case l of Some lt \<Rightarrow> lookup env lt q | None \<Rightarrow> Inr [])
                (case m of Some mt \<Rightarrow> lookup env mt q | None \<Rightarrow> Inr st))
             (case r of Some rt \<Rightarrow> lookup env rt q | None \<Rightarrow> Inr [])"
proof -
  from assms(2) have "\<not> truthy (getProp q (key f))"
    by (elim insertE emptyE) simp_all
  with assms(1) show ?thesis
    by (subst lookup.simps) (simp only: option.case if_False)
qed

theorem lookup_falsy_gathers_witness:
  "indexField [\<lparr>key = ''a'', val = JNum 1\<rparr>] = Some \<lparr>key = ''a'', val = JNum 1\<rparr>
   \<and> getProp [(''a'', JNum 0)] (key \<lparr>key = ''a'', val = JNum 1\<rparr>)
        \<in> {JNum 0, JStr [], JBool False, JNull}
   \<and> lookup hostEnv
        (Node [[(''a'', JNum 2)]] [\<lparr>key = ''a'', val = JNum 1\<rparr>] (Some [(''a'', JNum 2)])
           (Some (BinaryTree (Some [(''a'', JNum 1)]) [\<lparr>key = ''a'', val = JNum 1\<rparr>]))
           None
           (Some (BinaryTree (Some [(''a'', JNum 3)]) [\<lparr>key = ''a'', val = JNum 1\<rparr>])))
        [(''a'', JNum 0)]
      = Inr [[(''a'', JNum 1)], [(''a'', JNum 2)], [(''a'', JNum 3)]]"
  using lookup_falsy_gathers [of "[\<lparr>key = ''a'', val = JNum 1\<rparr>]" "\<lparr>key = ''a'', val = JNum 1\<rparr>"
      "[(''a'', JNum 0)]" hostEnv "[[(''a'', JNum 2)]]" "Some [(''a'', JNum 2)]"
      "Some (BinaryTree (Some [(''a'', JNum 1)]) [\<lparr>key = ''a'', val = JNum 1\<rparr>])" None
      "Some (BinaryTree (Some [(''a'', JNum 3)]) [\<lparr>key = ''a'', val = JNum 1\<rparr>])"]
  by (simp add: indexField_def getProp_def concatE_def)

subsection \<open>The order of the traversal\<close>

text \<open>
  A tree built for one document is the node the constructor makes.
\<close>

lemma treeOf_single: "treeOf env ix [v] = Some (BinaryTree (Some v) ix)"
proof (induction ix)
  case Nil
  show ?case by simp
next
  case (Cons f fs)
  then show ?case by simp
qed


text \<open>
  The array handed to \<open>inOrder\<close> is a prefix of what it returns, so the traversal of
  a node is the traversal of its left child, then of its middle child or else its store,
  then of its right child.
\<close>

lemma inOrder_acc: "inOrder t acc = acc @ inOrder t []"
proof (induction t arbitrary: acc)
  case (Node st ix d l m r)
  have L: "(case l of Some lt \<Rightarrow> inOrder lt a | None \<Rightarrow> a) = a @ inOrderOpt l" for a
  proof (cases l)
    case None
    then show ?thesis by (simp add: inOrderOpt_def)
  next
    case (Some lt)
    then show ?thesis using Node.IH(1) [of lt a] by (simp add: inOrderOpt_def)
  qed
  have M: "(case m of Some mt \<Rightarrow> inOrder mt a | None \<Rightarrow> a @ st)
           = a @ (case m of Some mt \<Rightarrow> inOrder mt [] | None \<Rightarrow> st)" for a
  proof (cases m)
    case None
    then show ?thesis by simp
  next
    case (Some mt)
    then show ?thesis using Node.IH(2) [of mt a] by simp
  qed
  have R: "(case r of Some rt \<Rightarrow> inOrder rt a | None \<Rightarrow> a) = a @ inOrderOpt r" for a
  proof (cases r)
    case None
    then show ?thesis by (simp add: inOrderOpt_def)
  next
    case (Some rt)
    then show ?thesis using Node.IH(3) [of rt a] by (simp add: inOrderOpt_def)
  qed
  show ?case
    by (simp only: inOrder.simps Let_def L M R append_assoc append_Nil)
qed

lemma inOrder_Node:
  "inOrder (Node st ix d l m r) [] =
     inOrderOpt l @ (case m of Some mt \<Rightarrow> inOrder mt [] | None \<Rightarrow> st) @ inOrderOpt r"
proof -
  have L: "(case l of Some lt \<Rightarrow> inOrder lt a | None \<Rightarrow> a) = a @ inOrderOpt l" for a
    using inOrder_acc [of _ a] by (cases l) (simp_all add: inOrderOpt_def)
  have M: "(case m of Some mt \<Rightarrow> inOrder mt a | None \<Rightarrow> a @ st)
           = a @ (case m of Some mt \<Rightarrow> inOrder mt [] | None \<Rightarrow> st)" for a
    using inOrder_acc [of _ a] by (cases m) simp_all
  have R: "(case r of Some rt \<Rightarrow> inOrder rt a | None \<Rightarrow> a) = a @ inOrderOpt r" for a
    using inOrder_acc [of _ a] by (cases r) (simp_all add: inOrderOpt_def)
  show ?thesis
    by (simp only: inOrder.simps Let_def L M R append_assoc append_Nil)
qed

lemma treeOf_None: "treeOf env ix xs = None \<longleftrightarrow> xs = []"
  by (cases xs) simp_all

lemma filter_snoc: "filter P (xs @ [v]) = (if P v then filter P xs @ [v] else filter P xs)"
  by simp

text \<open>
  Inserting one more document into the tree of a sequence gives the tree of the longer
  sequence, whatever the comparator returns: a document whose comparison is none of -1,
  0 and 1 is placed nowhere by \<open>insert\<close> and belongs to no part of \<open>treeOf\<close>.
\<close>

declare treeOf.simps(2) [simp del]

lemma treeOf_snoc:
  "treeOf env ix xs = Some t \<Longrightarrow> treeOf env ix (xs @ [v]) = Some (fst (insert1 env t v))"
proof (induction env ix xs arbitrary: t rule: treeOf.induct)
  case (1 env ix)
  then show ?case by simp
next
  case (2 env ix d xs)
  let ?c = "compareFunc env (indexField ix) v d"
  let ?lt = "filter (\<lambda>x. compareFunc env (indexField ix) x d = - 1) xs"
  let ?eq = "filter (\<lambda>x. compareFunc env (indexField ix) x d = 0) xs"
  let ?gt = "filter (\<lambda>x. compareFunc env (indexField ix) x d = 1) xs"
  let ?mid = "if tl ix = [] then None else treeOf env (tl ix) (d # ?eq)"
  have t: "t = Node (d # ?eq) ix (Some d) (treeOf env ix ?lt) ?mid (treeOf env ix ?gt)"
    using "2.prems" by (simp add: treeOf.simps(2))
  have unfold: "treeOf env ix ((d # xs) @ [v]) =
      Some (Node (d # filter (\<lambda>x. compareFunc env (indexField ix) x d = 0) (xs @ [v])) ix (Some d)
       (treeOf env ix (filter (\<lambda>x. compareFunc env (indexField ix) x d = - 1) (xs @ [v])))
       (if tl ix = [] then None
        else treeOf env (tl ix) (d # filter (\<lambda>x. compareFunc env (indexField ix) x d = 0) (xs @ [v])))
       (treeOf env ix (filter (\<lambda>x. compareFunc env (indexField ix) x d = 1) (xs @ [v]))))"
    by (simp add: treeOf.simps(2) [of env ix d "xs @ [v]"])
  consider (lt) "?c = - 1" | (eq) "?c = 0" | (gt) "?c = 1" | (other) "?c \<noteq> - 1" "?c \<noteq> 0" "?c \<noteq> 1"
    by blast
  then show ?case
  proof cases
    case lt
    have "treeOf env ix (?lt @ [v]) =
          Some (case treeOf env ix ?lt of Some l \<Rightarrow> fst (insert1 env l v)
                | None \<Rightarrow> BinaryTree (Some v) ix)"
    proof (cases "treeOf env ix ?lt")
      case None
      then have "?lt = []" by (simp add: treeOf_None)
      then show ?thesis using None by (simp add: treeOf_single)
    next
      case (Some l)
      then show ?thesis using "2.IH"(1) [of l] by simp
    qed
    then show ?thesis
      unfolding unfold using lt by (simp add: t split: option.split)
  next
    case eq
    show ?thesis
    proof (cases "tl ix = []")
      case True
      then show ?thesis unfolding unfold using eq by (simp add: t)
    next
      case False
      obtain m where m: "treeOf env (tl ix) (d # ?eq) = Some m"
        by (cases "treeOf env (tl ix) (d # ?eq)") (simp_all add: treeOf_None)
      have "treeOf env (tl ix) (d # ?eq @ [v]) = Some (fst (insert1 env m v))"
        using "2.IH"(2) [OF False m] by simp
      then show ?thesis
        unfolding unfold using eq False m by (simp add: t)
    qed
  next
    case gt
    have "treeOf env ix (?gt @ [v]) =
          Some (case treeOf env ix ?gt of Some r \<Rightarrow> fst (insert1 env r v)
                | None \<Rightarrow> BinaryTree (Some v) ix)"
    proof (cases "treeOf env ix ?gt")
      case None
      then have "?gt = []" by (simp add: treeOf_None)
      then show ?thesis using None by (simp add: treeOf_single)
    next
      case (Some r)
      then show ?thesis using "2.IH"(3) [of r] by simp
    qed
    then show ?thesis
      unfolding unfold using gt by (simp add: t split: option.split)
  next
    case other
    then show ?thesis unfolding unfold by (simp add: t)
  qed
qed

text \<open>
  Two facts on stable sorting: sorting by a key splits along any coarser key, and a
  head that is the same on every element does not matter.
\<close>

lemma mset_three_way:
  fixes h :: "'a \<Rightarrow> 'h::linorder"
  shows "{#x \<in># M. h x < p#} + ({#x \<in># M. h x = p#} + {#x \<in># M. p < h x#}) = M"
  by (induction M) auto

lemma sort_key_partition:
  fixes K :: "'a \<Rightarrow> 'k::linorder" and h :: "'a \<Rightarrow> 'h::linorder"
  assumes mono: "\<And>x y. h x < h y \<Longrightarrow> K x < K y"
  shows "sort_key K xs =
           sort_key K [x\<leftarrow>xs. h x < p] @ sort_key K [x\<leftarrow>xs. h x = p]
           @ sort_key K [x\<leftarrow>xs. p < h x]"
    (is "_ = ?A @ ?B @ ?C")
proof (rule properties_for_sort_key)
  show "mset (?A @ ?B @ ?C) = mset xs"
    by (simp add: mset_three_way)
  have le: "K x \<le> K y" if "h x < h y" for x y
    using mono [OF that] by simp
  show "sorted (map K (?A @ ?B @ ?C))"
    by (auto simp add: sorted_append intro!: le intro: less_trans)
  fix y
  assume "y \<in> set (?A @ ?B @ ?C)"
  have eqh: "h x = h y" if "K y = K x" for x
    using mono [of x y] mono [of y x] that by (cases "h x" "h y" rule: linorder_cases) auto
  have A: "[x\<leftarrow>?A. K y = K x] = [x\<leftarrow>xs. K y = K x \<and> h x < p]"
    using sort_key_stable [of K "K y" "[x\<leftarrow>xs. h x < p]"]
    by (simp add: eq_commute [of "K y"] conj_commute)
  have B: "[x\<leftarrow>?B. K y = K x] = [x\<leftarrow>xs. K y = K x \<and> h x = p]"
    using sort_key_stable [of K "K y" "[x\<leftarrow>xs. h x = p]"]
    by (simp add: eq_commute [of "K y"] conj_commute)
  have C: "[x\<leftarrow>?C. K y = K x] = [x\<leftarrow>xs. K y = K x \<and> p < h x]"
    using sort_key_stable [of K "K y" "[x\<leftarrow>xs. p < h x]"]
    by (simp add: eq_commute [of "K y"] conj_commute)
  have F: "[x\<leftarrow>xs. K y = K x \<and> Q (h x)] = (if Q (h y) then [x\<leftarrow>xs. K y = K x] else [])"
    for Q :: "'h \<Rightarrow> bool"
  proof -
    have "(K y = K x \<and> Q (h x)) = (K y = K x \<and> Q (h y))" for x
      using eqh [of x] by auto
    then show ?thesis by simp
  qed
  have "[x\<leftarrow>?A @ ?B @ ?C. K y = K x] =
        [x\<leftarrow>xs. K y = K x \<and> h x < p] @ [x\<leftarrow>xs. K y = K x \<and> h x = p]
        @ [x\<leftarrow>xs. K y = K x \<and> p < h x]"
    by (simp only: filter_append A B C)
  also have "\<dots> = (if h y < p then [x\<leftarrow>xs. K y = K x] else [])
        @ (if h y = p then [x\<leftarrow>xs. K y = K x] else [])
        @ (if p < h y then [x\<leftarrow>xs. K y = K x] else [])"
    by (simp only: F [of "\<lambda>z. z < p"] F [of "\<lambda>z. z = p"] F [of "\<lambda>z. p < z"])
  also have "\<dots> = [x\<leftarrow>xs. K y = K x]"
    by (cases "h y" p rule: linorder_cases) auto
  finally show "[x\<leftarrow>?A @ ?B @ ?C. K y = K x] = [x\<leftarrow>xs. K y = K x]" .
qed

lemma sort_key_same_head:
  fixes k :: "'a \<Rightarrow> 'k::linorder list" and h :: "'a \<Rightarrow> 'k"
  assumes same: "\<And>x. x \<in> set E \<Longrightarrow> h x = p"
  shows "sort_key (\<lambda>x. h x # k x) E = sort_key k E"
proof (rule properties_for_sort_key)
  show "mset (sort_key k E) = mset E" by simp
  have e: "map (\<lambda>x. h x # k x) (sort_key k E) = map (\<lambda>x. p # k x) (sort_key k E)"
    using same by (auto intro!: map_cong)
  have "sorted (map (\<lambda>x. p # k x) (sort_key k E))"
    using sorted_sort_key [of k E]
    by (simp add: sorted_map sorted_wrt_iff_nth_less)
  then show "sorted (map (\<lambda>x. h x # k x) (sort_key k E))"
    unfolding e .
  fix y
  assume y: "y \<in> set (sort_key k E)"
  have "[x\<leftarrow>sort_key k E. h y # k y = h x # k x] = [x\<leftarrow>sort_key k E. k y = k x]"
    using same y by (auto intro!: filter_cong)
  moreover have "[x\<leftarrow>E. h y # k y = h x # k x] = [x\<leftarrow>E. k y = k x]"
    using same y by (auto intro!: filter_cong)
  moreover have "[x\<leftarrow>sort_key k E. k y = k x] = [x\<leftarrow>E. k y = k x]"
    using sort_key_stable [of k "k y" E] by (simp add: eq_commute [of "k y"])
  ultimately show "[x\<leftarrow>sort_key k E. h y # k y = h x # k x] = [x\<leftarrow>E. h y # k y = h x # k x]"
    by simp
qed

text \<open>
  The batch insert into an empty tree builds \<open>treeOf\<close> of the batch.
\<close>

lemma insertLoop_fold:
  "fst (insertLoop env t xs res) = fold (\<lambda>v t. fst (insert1 env t v)) xs t"
  by (induction xs arbitrary: t res) (simp_all split: prod.split)

lemma insert1_empty_root:
  "fst (insert1 env (BinaryTree None ix) v) = BinaryTree (Some v) ix"
proof (cases ix)
  case Nil
  then show ?thesis by simp
next
  case (Cons f fs)
  then show ?thesis by (cases fs) simp_all
qed

lemma insertArray_treeOf:
  assumes "xs \<noteq> []"
  shows "treeOf env ix xs = Some (fst (insertArray env (BinaryTree None ix) xs))"
  using assms
proof (induction xs rule: rev_nonempty_induct)
  case (single v)
  show ?case
    by (simp add: insertArray_def insertLoop_fold insert1_empty_root treeOf_single
        del: BinaryTree.simps insert1.simps insertLoop.simps)
next
  case (snoc v xs)
  have "treeOf env ix (xs @ [v]) =
        Some (fst (insert1 env (fst (insertArray env (BinaryTree None ix) xs)) v))"
    using snoc.IH by (rule treeOf_snoc)
  then show ?case
    by (simp add: insertArray_def insertLoop_fold del: insertLoop.simps)
qed

lemma inOrder_insertArray:
  "inOrder (fst (insertArray env (BinaryTree None ix) xs)) [] = inOrderOpt (treeOf env ix xs)"
proof (cases "xs = []")
  case True
  then show ?thesis by (simp add: insertArray_def inOrderOpt_def)
next
  case False
  then show ?thesis by (simp add: insertArray_treeOf inOrderOpt_def)
qed

text \<open>
  Where the comparator of every field is the three-way comparison of a rank, the
  traversal of \<open>treeOf\<close> is the stable sort by the compound key.
\<close>

lemma inOrderOpt_None: "inOrderOpt None = []"
  by (simp add: inOrderOpt_def)

lemma inOrderOpt_Some: "inOrderOpt (Some t) = inOrder t []"
  by (simp add: inOrderOpt_def)

lemma inOrderOpt_treeOf_Cons:
  "inOrderOpt (treeOf env ix (d # xs)) =
     inOrderOpt (treeOf env ix (filter (\<lambda>x. compareFunc env (indexField ix) x d = - 1) xs))
     @ (if tl ix = [] then d # filter (\<lambda>x. compareFunc env (indexField ix) x d = 0) xs
        else inOrderOpt (treeOf env (tl ix)
               (d # filter (\<lambda>x. compareFunc env (indexField ix) x d = 0) xs)))
     @ inOrderOpt (treeOf env ix (filter (\<lambda>x. compareFunc env (indexField ix) x d = 1) xs))"
proof -
  obtain m where m: "treeOf env (tl ix) (d # filter (\<lambda>x. compareFunc env (indexField ix) x d = 0) xs)
      = Some m"
    by (cases "treeOf env (tl ix) (d # filter (\<lambda>x. compareFunc env (indexField ix) x d = 0) xs)")
       (simp_all add: treeOf_None)
  show ?thesis
    by (simp add: treeOf.simps(2) [of env ix d xs] inOrderOpt_Some inOrder_Node m
        del: inOrder.simps)
qed

lemma threeWay_iff:
  "threeWay x y = - 1 \<longleftrightarrow> x < y" "threeWay x y = 0 \<longleftrightarrow> x = y" "threeWay x y = 1 \<longleftrightarrow> y < x"
  by (auto simp add: threeWay_def)

lemma inOrderOpt_treeOf_sort:
  fixes rank :: "ixfield \<Rightarrow> doc \<Rightarrow> 'k::linorder"
  assumes "\<And>f a b. f \<in> set ix \<Longrightarrow> a \<in> set xs \<Longrightarrow> b \<in> set xs \<Longrightarrow>
             compareFunc env (Some f) a b = threeWay (rank f a) (rank f b)"
  shows "inOrderOpt (treeOf env ix xs) = sort_key (compoundKey rank ix) xs"
  using assms
proof (induction env ix xs rule: treeOf.induct)
  case (1 env ix)
  show ?case by (simp add: inOrderOpt_def)
next
  case (2 env ix d xs)
  show ?case
  proof (cases ix)
    case Nil
    have "compoundKey rank [] = (\<lambda>x. [])"
      by (simp add: compoundKey_def fun_eq_iff)
    then show ?thesis
      using Nil
      by (simp add: inOrderOpt_treeOf_Cons indexField_def compareFunc_def inOrderOpt_None
          sort_key_const del: sort_key_simps)
  next
    case (Cons f fs)
    let ?K = "compoundKey rank ix"
    have K_eq: "?K = (\<lambda>x. rank f x # compoundKey rank fs x)"
      using Cons by (simp add: compoundKey_def fun_eq_iff)
    let ?p = "rank f d"
    have cf: "compareFunc env (indexField ix) x d = threeWay (rank f x) ?p" if "x \<in> set xs" for x
      using "2.prems" [of f x d] that Cons by (simp add: indexField_def)
    have lt: "filter (\<lambda>x. compareFunc env (indexField ix) x d = - 1) xs = [x\<leftarrow>xs. rank f x < ?p]"
      by (rule filter_cong [OF refl]) (simp add: cf threeWay_iff)
    have eq: "filter (\<lambda>x. compareFunc env (indexField ix) x d = 0) xs = [x\<leftarrow>xs. rank f x = ?p]"
      by (rule filter_cong [OF refl]) (simp add: cf threeWay_iff)
    have gt: "filter (\<lambda>x. compareFunc env (indexField ix) x d = 1) xs = [x\<leftarrow>xs. ?p < rank f x]"
      by (rule filter_cong [OF refl]) (simp add: cf threeWay_iff)
    have L: "inOrderOpt (treeOf env ix [x\<leftarrow>xs. rank f x < ?p]) =
             sort_key (compoundKey rank ix) [x\<leftarrow>xs. rank f x < ?p]"
      unfolding lt [symmetric] by (rule "2.IH"(1)) (rule "2.prems"; simp)
    have R: "inOrderOpt (treeOf env ix [x\<leftarrow>xs. ?p < rank f x]) =
             sort_key (compoundKey rank ix) [x\<leftarrow>xs. ?p < rank f x]"
      unfolding gt [symmetric] by (rule "2.IH"(3)) (rule "2.prems"; simp)
    have M: "(if tl ix = [] then d # [x\<leftarrow>xs. rank f x = ?p]
              else inOrderOpt (treeOf env (tl ix) (d # [x\<leftarrow>xs. rank f x = ?p])))
             = sort_key (compoundKey rank fs) (d # [x\<leftarrow>xs. rank f x = ?p])"
    proof (cases "tl ix = []")
      case True
      have "compoundKey rank [] = (\<lambda>x. [])"
        by (simp add: compoundKey_def fun_eq_iff)
      then show ?thesis using True Cons by (simp add: sort_key_const del: sort_key_simps)
    next
      case False
      have "inOrderOpt (treeOf env (tl ix) (d # [x\<leftarrow>xs. rank f x = ?p])) =
            sort_key (compoundKey rank (tl ix)) (d # [x\<leftarrow>xs. rank f x = ?p])"
        unfolding eq [symmetric]
      proof (rule "2.IH"(2) [OF False])
        fix g a b
        assume "g \<in> set (tl ix)"
          and "a \<in> set (d # filter (\<lambda>x. compareFunc env (indexField ix) x d = 0) xs)"
          and "b \<in> set (d # filter (\<lambda>x. compareFunc env (indexField ix) x d = 0) xs)"
        then show "compareFunc env (Some g) a b = threeWay (rank g a) (rank g b)"
          using Cons by (intro "2.prems") auto
      qed
      then show ?thesis using False Cons by simp
    qed
    have Q: "sort_key (compoundKey rank fs) (d # [x\<leftarrow>xs. rank f x = ?p])
             = sort_key ?K (d # [x\<leftarrow>xs. rank f x = ?p])"
      unfolding K_eq by (rule sort_key_same_head [where p = ?p, symmetric]) auto
    have mono: "?K x < ?K y" if "rank f x < rank f y" for x y
      using that unfolding K_eq by simp
    have P: "sort_key ?K (d # xs) =
             sort_key ?K [x\<leftarrow>d # xs. rank f x < ?p] @ sort_key ?K [x\<leftarrow>d # xs. rank f x = ?p]
             @ sort_key ?K [x\<leftarrow>d # xs. ?p < rank f x]"
      by (rule sort_key_partition) (rule mono)
    have "inOrderOpt (treeOf env ix (d # xs)) =
          inOrderOpt (treeOf env ix [x\<leftarrow>xs. rank f x < ?p])
          @ (if tl ix = [] then d # [x\<leftarrow>xs. rank f x = ?p]
             else inOrderOpt (treeOf env (tl ix) (d # [x\<leftarrow>xs. rank f x = ?p])))
          @ inOrderOpt (treeOf env ix [x\<leftarrow>xs. ?p < rank f x])"
      using inOrderOpt_treeOf_Cons [of env ix d xs] unfolding lt eq gt .
    also have "\<dots> = sort_key ?K [x\<leftarrow>xs. rank f x < ?p] @ sort_key ?K (d # [x\<leftarrow>xs. rank f x = ?p])
          @ sort_key ?K [x\<leftarrow>xs. ?p < rank f x]"
      by (simp only: L R M Q)
    also have "\<dots> = sort_key ?K (d # xs)"
      unfolding P by simp
    finally show ?thesis .
  qed
qed

text \<open>
  There the compound comparator is the three-way comparison of the compound keys.
\<close>

lemma threeWay_Cons:
  "threeWay (x # xs) (y # ys) = (if threeWay x y \<noteq> 0 then threeWay x y else threeWay xs ys)"
  by (auto simp add: threeWay_def)

lemma compoundCompare_threeWay:
  fixes rank :: "ixfield \<Rightarrow> doc \<Rightarrow> 'k::linorder"
  assumes "\<And>f. f \<in> set ix \<Longrightarrow> compareFunc env (Some f) a b = threeWay (rank f a) (rank f b)"
  shows "compoundCompare env ix a b = threeWay (compoundKey rank ix a) (compoundKey rank ix b)"
  using assms
proof (induction ix)
  case Nil
  show ?case by (simp add: compoundKey_def threeWay_def)
next
  case (Cons f fs)
  have "compoundCompare env fs a b = threeWay (compoundKey rank fs a) (compoundKey rank fs b)"
    by (rule Cons.IH) (simp add: Cons.prems)
  moreover have "compareFunc env (Some f) a b = threeWay (rank f a) (rank f b)"
    by (simp add: Cons.prems)
  moreover have "compoundKey rank (f # fs) c = rank f c # compoundKey rank fs c" for c
    by (simp add: compoundKey_def)
  ultimately show ?case
    by (simp add: threeWay_Cons)
qed

text \<open>
  The hypothesis of the theorem that follows holds for the numbers of this model, the
  integers: at a field whose direction is 1 or -1 and at which both documents hold an
  integer, the comparator is the three-way comparison of \<open>numberRank\<close>. A three-way
  comparison is exactly -1, 0 or 1.
\<close>

lemma compareFunc_numberRank:
  assumes "val f = JNum 1 \<or> val f = JNum (- 1)"
    and "getProp a (key f) = JNum m" and "getProp b (key f) = JNum n"
  shows "compareFunc env (Some f) a b = threeWay (numberRank f a) (numberRank f b)"
  using assms by (auto simp add: compareFunc_def numberRank_def threeWay_def js_gt_def)

lemma threeWay_values: "threeWay x y \<in> {- 1, 0, 1}"
  by (simp add: threeWay_def)

text \<open>
  Claim C5, as the code has it. Take documents on which the comparator of every field
  of the index returns exactly -1, 0 or 1 and agrees with a linear order: it is the
  three-way comparison of a rank. Inserted in any order into an empty tree, they come
  out of \<open>inOrder()\<close> sorted under the compound comparator of the index, and the
  documents that tie with a given document on every field come out in the order they
  were inserted in. So two insertion orders of the same documents give the same
  sequence when no two different documents tie on every field.
\<close>

theorem inOrder_sorted_stable:
  fixes rank :: "ixfield \<Rightarrow> doc \<Rightarrow> 'k::linorder"
  assumes rank: "\<forall>f\<in>set sigma. \<forall>a\<in>set xs. \<forall>b\<in>set xs.
                   compareFunc env (Some f) a b = threeWay (rank f a) (rank f b)"
    and perm: "mset ys = mset xs"
  shows "sorted_wrt (\<lambda>a b. compoundCompare env sigma a b \<le> 0)
           (inOrder (fst (insertArray env (BinaryTree None sigma) xs)) [])
       \<and> (\<forall>a\<in>set xs.
             filter (\<lambda>x. compoundCompare env sigma a x = 0)
               (inOrder (fst (insertArray env (BinaryTree None sigma) xs)) [])
             = filter (\<lambda>x. compoundCompare env sigma a x = 0) xs)
       \<and> ((\<forall>a\<in>set xs. \<forall>b\<in>set xs. compoundCompare env sigma a b = 0 \<longrightarrow> a = b) \<longrightarrow>
             inOrder (fst (insertArray env (BinaryTree None sigma) ys)) []
             = inOrder (fst (insertArray env (BinaryTree None sigma) xs)) [])"
proof -
  let ?K = "compoundKey rank sigma"
  let ?L = "inOrder (fst (insertArray env (BinaryTree None sigma) xs)) []"
  have sets: "set ys = set xs"
    using perm by (rule mset_eq_setD)
  have cmp: "compoundCompare env sigma a b = threeWay (?K a) (?K b)"
    if "a \<in> set xs" "b \<in> set xs" for a b
    by (rule compoundCompare_threeWay) (use rank that in blast)
  have Lx: "?L = sort_key ?K xs"
    unfolding inOrder_insertArray
    by (rule inOrderOpt_treeOf_sort) (use rank in blast)
  have Ly: "inOrder (fst (insertArray env (BinaryTree None sigma) ys)) [] = sort_key ?K ys"
    unfolding inOrder_insertArray
    by (rule inOrderOpt_treeOf_sort) (use rank sets in blast)
  have "sorted_wrt (\<lambda>a b. ?K a \<le> ?K b) (sort_key ?K xs)"
    using sorted_sort_key [of ?K xs] by (simp add: sorted_map)
  then have S: "sorted_wrt (\<lambda>a b. compoundCompare env sigma a b \<le> 0) ?L"
    unfolding Lx
    by (rule sorted_wrt_mono_rel [rotated]) (auto simp add: cmp threeWay_def)
  have T: "filter (\<lambda>x. compoundCompare env sigma a x = 0) ?L
           = filter (\<lambda>x. compoundCompare env sigma a x = 0) xs" if a: "a \<in> set xs" for a
  proof -
    have "filter (\<lambda>x. compoundCompare env sigma a x = 0) (sort_key ?K xs)
          = filter (\<lambda>x. ?K x = ?K a) (sort_key ?K xs)"
      by (rule filter_cong [OF refl]) (auto simp add: cmp a threeWay_def)
    also have "\<dots> = filter (\<lambda>x. ?K x = ?K a) xs"
      by (rule sort_key_stable)
    also have "\<dots> = filter (\<lambda>x. compoundCompare env sigma a x = 0) xs"
      by (rule filter_cong [OF refl]) (auto simp add: cmp a threeWay_def)
    finally show ?thesis unfolding Lx .
  qed
  have P: "inOrder (fst (insertArray env (BinaryTree None sigma) ys)) [] = ?L"
    if noTies: "\<forall>a\<in>set xs. \<forall>b\<in>set xs. compoundCompare env sigma a b = 0 \<longrightarrow> a = b"
  proof -
    have "mset ys = mset (sort_key ?K xs)"
      using perm by simp
    moreover have "inj_on ?K (set ys)"
      unfolding sets
    proof (rule inj_onI)
      fix a b
      assume ab: "a \<in> set xs" "b \<in> set xs" "?K a = ?K b"
      then have "compoundCompare env sigma a b = 0"
        by (simp add: cmp threeWay_def)
      with noTies ab show "a = b" by blast
    qed
    moreover have "sorted (map ?K (sort_key ?K xs))"
      by (rule sorted_sort_key)
    ultimately have "sort_key ?K ys = sort_key ?K xs"
      by (rule sort_key_inj_key_eq)
    then show ?thesis unfolding Lx Ly .
  qed
  show ?thesis using S T P by blast
qed

theorem inOrder_sorted_stable_witness:
  "inOrder (fst (insertArray hostEnv
        (BinaryTree None [\<lparr>key = ''a'', val = JNum 1\<rparr>, \<lparr>key = ''b'', val = JNum (- 1)\<rparr>])
        [[(''a'', JNum 2), (''b'', JNum 1)], [(''a'', JNum 1), (''b'', JNum 1)],
         [(''a'', JNum 1), (''b'', JNum 2)]])) []
   = [[(''a'', JNum 1), (''b'', JNum 2)], [(''a'', JNum 1), (''b'', JNum 1)],
      [(''a'', JNum 2), (''b'', JNum 1)]]
   \<and> inOrder (fst (insertArray hostEnv
        (BinaryTree None [\<lparr>key = ''a'', val = JNum 1\<rparr>, \<lparr>key = ''b'', val = JNum (- 1)\<rparr>])
        [[(''a'', JNum 1), (''b'', JNum 2)], [(''a'', JNum 2), (''b'', JNum 1)],
         [(''a'', JNum 1), (''b'', JNum 1)]])) []
   = inOrder (fst (insertArray hostEnv
        (BinaryTree None [\<lparr>key = ''a'', val = JNum 1\<rparr>, \<lparr>key = ''b'', val = JNum (- 1)\<rparr>])
        [[(''a'', JNum 2), (''b'', JNum 1)], [(''a'', JNum 1), (''b'', JNum 1)],
         [(''a'', JNum 1), (''b'', JNum 2)]])) []
   \<and> sorted_wrt (\<lambda>a b. compoundCompare hostEnv
          [\<lparr>key = ''a'', val = JNum 1\<rparr>, \<lparr>key = ''b'', val = JNum (- 1)\<rparr>] a b \<le> 0)
        (inOrder (fst (insertArray hostEnv
          (BinaryTree None [\<lparr>key = ''a'', val = JNum 1\<rparr>, \<lparr>key = ''b'', val = JNum (- 1)\<rparr>])
          [[(''a'', JNum 2), (''b'', JNum 1)], [(''a'', JNum 1), (''b'', JNum 1)],
           [(''a'', JNum 1), (''b'', JNum 2)]])) [])"
proof -
  let ?sigma = "[\<lparr>key = ''a'', val = JNum 1\<rparr>, \<lparr>key = ''b'', val = JNum (- 1)\<rparr>]"
  let ?xs = "[[(''a'', JNum 2), (''b'', JNum 1)], [(''a'', JNum 1), (''b'', JNum 1)],
              [(''a'', JNum 1), (''b'', JNum 2)]]"
  let ?ys = "[[(''a'', JNum 1), (''b'', JNum 2)], [(''a'', JNum 2), (''b'', JNum 1)],
              [(''a'', JNum 1), (''b'', JNum 1)]]"
  have rank: "\<forall>f\<in>set ?sigma. \<forall>a\<in>set ?xs. \<forall>b\<in>set ?xs.
      compareFunc hostEnv (Some f) a b = threeWay (numberRank f a) (numberRank f b)"
    by (simp add: compareFunc_def getProp_def js_gt_def threeWay_def numberRank_def)
  have perm: "mset ?ys = mset ?xs"
    by (simp add: add.commute)
  have noTies: "\<forall>a\<in>set ?xs. \<forall>b\<in>set ?xs. compoundCompare hostEnv ?sigma a b = 0 \<longrightarrow> a = b"
    by (simp add: compareFunc_def getProp_def js_gt_def)
  have val: "inOrder (fst (insertArray hostEnv (BinaryTree None ?sigma) ?xs)) []
      = [[(''a'', JNum 1), (''b'', JNum 2)], [(''a'', JNum 1), (''b'', JNum 1)],
         [(''a'', JNum 2), (''b'', JNum 1)]]"
    by (simp add: insertArray_def compareFunc_def indexField_def getProp_def js_gt_def Let_def)
  from inOrder_sorted_stable [OF rank perm] noTies val show ?thesis
    by blast
qed

text \<open>
  The claim as it was stated fails twice over. Two documents that tie on the index come
  out in the order they went in, so the two insertion orders give two sequences. And a
  document without the indexed field compares equal to every other, so the documents
  \<open>{}\<close>, \<open>{a: 2}\<close>, \<open>{a: 1}\<close>, inserted in this order, all land in the store of the
  root and come out in this order, with 2 before 1.
\<close>

theorem inOrder_insertion_order_counterexample:
  "mset [[(''a'', JNum 1), (''id'', JNum 2)], [(''a'', JNum 1), (''id'', JNum 1)]]
     = mset [[(''a'', JNum 1), (''id'', JNum 1)], [(''a'', JNum 1), (''id'', JNum 2)]]
   \<and> inOrder (fst (insertArray hostEnv (BinaryTree None [\<lparr>key = ''a'', val = JNum 1\<rparr>])
         [[(''a'', JNum 1), (''id'', JNum 1)], [(''a'', JNum 1), (''id'', JNum 2)]])) []
     \<noteq> inOrder (fst (insertArray hostEnv (BinaryTree None [\<lparr>key = ''a'', val = JNum 1\<rparr>])
         [[(''a'', JNum 1), (''id'', JNum 2)], [(''a'', JNum 1), (''id'', JNum 1)]])) []
   \<and> \<not> sorted_wrt (\<lambda>a b. compoundCompare hostEnv [\<lparr>key = ''a'', val = JNum 1\<rparr>] a b \<le> 0)
         (inOrder (fst (insertArray hostEnv (BinaryTree None [\<lparr>key = ''a'', val = JNum 1\<rparr>])
            [[], [(''a'', JNum 2)], [(''a'', JNum 1)]])) [])"
  by (simp add: insertArray_def compareFunc_def indexField_def getProp_def js_gt_def Let_def
      add.commute)

subsection \<open>Lookup with a query that constrains no index field\<close>

text \<open>
  On a tree built by inserting documents, a query whose value is falsy at every field of
  the index gathers at every level, and \<open>lookup\<close> returns the whole in-order traversal.
\<close>

lemma lookup_unconstrained:
  assumes "ix \<noteq> []" and "\<And>f. f \<in> set ix \<Longrightarrow> \<not> truthy (getProp q (key f))"
    and "treeOf env ix xs = Some t"
  shows "lookup env t q = Inr (inOrder t [])"
  using assms
proof (induction env ix xs arbitrary: t rule: treeOf.induct)
  case (1 env ix)
  then show ?case by simp
next
  case (2 env ix d xs)
  let ?eq = "filter (\<lambda>x. compareFunc env (indexField ix) x d = 0) xs"
  let ?L = "treeOf env ix (filter (\<lambda>x. compareFunc env (indexField ix) x d = - 1) xs)"
  let ?M = "if tl ix = [] then None else treeOf env (tl ix) (d # ?eq)"
  let ?R = "treeOf env ix (filter (\<lambda>x. compareFunc env (indexField ix) x d = 1) xs)"
  have t: "t = Node (d # ?eq) ix (Some d) ?L ?M ?R"
    using "2.prems"(3) by (simp add: treeOf.simps(2))
  obtain f fs where ix: "ix = f # fs"
    using "2.prems"(1) by (cases ix) auto
  have f: "indexField ix = Some f" "\<not> truthy (getProp q (key f))"
    using ix "2.prems"(2) [of f] by (simp_all add: indexField_def)
  have L: "(case ?L of Some lt \<Rightarrow> lookup env lt q | None \<Rightarrow> Inr []) = Inr (inOrderOpt ?L)"
  proof (cases ?L)
    case None
    then show ?thesis by (simp add: inOrderOpt_None)
  next
    case (Some lt)
    have "lookup env lt q = Inr (inOrder lt [])"
      using "2.prems"(1) "2.prems"(2) Some by (rule "2.IH"(1))
    then show ?thesis using Some by (simp add: inOrderOpt_Some)
  qed
  have R: "(case ?R of Some rt \<Rightarrow> lookup env rt q | None \<Rightarrow> Inr []) = Inr (inOrderOpt ?R)"
  proof (cases ?R)
    case None
    then show ?thesis by (simp add: inOrderOpt_None)
  next
    case (Some rt)
    have "lookup env rt q = Inr (inOrder rt [])"
      using "2.prems"(1) "2.prems"(2) Some by (rule "2.IH"(3))
    then show ?thesis using Some by (simp add: inOrderOpt_Some)
  qed
  have M: "(case ?M of Some mt \<Rightarrow> lookup env mt q | None \<Rightarrow> Inr (d # ?eq))
           = Inr (case ?M of Some mt \<Rightarrow> inOrder mt [] | None \<Rightarrow> d # ?eq)"
  proof (cases "tl ix = []")
    case True
    then show ?thesis by simp
  next
    case False
    obtain mt where mt: "treeOf env (tl ix) (d # ?eq) = Some mt"
      by (cases "treeOf env (tl ix) (d # ?eq)") (simp_all add: treeOf_None)
    have "lookup env mt q = Inr (inOrder mt [])"
    proof (rule "2.IH"(2) [OF False False _ mt])
      fix g
      assume "g \<in> set (tl ix)"
      then show "\<not> truthy (getProp q (key g))"
        using "2.prems"(2) [of g] ix by simp
    qed
    then show ?thesis using False mt by simp
  qed
  have "lookup env t q =
        concatE (concatE (case ?L of Some lt \<Rightarrow> lookup env lt q | None \<Rightarrow> Inr [])
                         (case ?M of Some mt \<Rightarrow> lookup env mt q | None \<Rightarrow> Inr (d # ?eq)))
                (case ?R of Some rt \<Rightarrow> lookup env rt q | None \<Rightarrow> Inr [])"
    unfolding t using f by (subst lookup.simps) (simp only: option.case if_False)
  also have "\<dots> = Inr (inOrderOpt ?L @ (case ?M of Some mt \<Rightarrow> inOrder mt [] | None \<Rightarrow> d # ?eq)
                         @ inOrderOpt ?R)"
    unfolding L M R by (simp add: concatE_def)
  also have "\<dots> = Inr (inOrder t [])"
    unfolding t by (simp only: inOrder_Node)
  finally show ?case .
qed

section \<open>Properties of the View\<close>

subsection \<open>The transform function and the chain handler\<close>


text \<open>
  Claim C1, as the code has it. On an \<open>update\<close> packet, for a view that is not dropped
  and has a query, the transform computes the diff. When the diff has neither an insert
  nor a remove entry, whatever its update entries, it sends nothing and returns false, and
  the packet passes unchanged. Otherwise it sends an \<open>insert\<close> packet with the insert
  entries when there are any, then one \<open>update\<close> packet for each update entry, then one
  \<open>remove\<close> packet when there are remove entries, and returns true.
\<close>

theorem ioTransform_update:
  "ioTransform isMatch currentDiff pk False \<lparr>query = Some q, options = opts\<rparr> (Update uq uu uo) =
     (if insert_d (currentDiff q opts) = [] \<and> remove_d (currentDiff q opts) = []
      then ([], False)
      else ((if insert_d (currentDiff q opts) = [] then []
             else [InsertDocs (insert_d (currentDiff q opts))])
            @ updatePackets pk (update_d (currentDiff q opts))
            @ (if remove_d (currentDiff q opts) = [] then []
               else [Remove (removeQuery pk (remove_d (currentDiff q opts)))]),
            True))"
  by (simp add: ioTransform_def Let_def updatePackets_def)

theorem ioTransform_update_witness:
  "ioTransform (\<lambda>d q opts. True)
      (\<lambda>q opts. \<lparr>insert_d = [[(''_id'', JNum 3)]], update_d = [[(''_id'', JNum 1), (''n'', JNum 5)]],
                  remove_d = [[(''_id'', JNum 2)]]\<rparr>)
      ''_id'' False \<lparr>query = Some (JObj []), options = None\<rparr>
      (Update (JObj []) [] None)
   = ([InsertDocs [[(''_id'', JNum 3)]],
       Update (JObj [(''_id'', JV (JNum 1))]) [(''_id'', JNum 1), (''n'', JNum 5)] None,
       Remove (JObj [(''$or'', JArr [JObj [(''_id'', JV (JNum 2))]])])], True)
   \<and> ioTransform (\<lambda>d q opts. True)
      (\<lambda>q opts. \<lparr>insert_d = [], update_d = [], remove_d = []\<rparr>)
      ''_id'' False \<lparr>query = Some (JObj []), options = None\<rparr>
      (Update (JObj []) [] None)
   = ([], False)"
  using ioTransform_update [of "\<lambda>d q opts. True"
      "\<lambda>q opts. \<lparr>insert_d = [[(''_id'', JNum 3)]], update_d = [[(''_id'', JNum 1), (''n'', JNum 5)]],
                  remove_d = [[(''_id'', JNum 2)]]\<rparr>" "''_id''" "JObj []" None "JObj []" "[]" None]
    ioTransform_update [of "\<lambda>d q opts. True"
      "\<lambda>q opts. \<lparr>insert_d = [], update_d = [], remove_d = []\<rparr>" "''_id''" "JObj []" None "JObj []" "[]" None]
  by (simp add: updatePackets_def removeQuery_def getProp_def)

text \<open>
  The claim as it was stated fails on a diff that holds an update entry only: nothing is
  sent and the transform returns false.
\<close>

theorem update_only_diff_counterexample:
  "update_d \<lparr>insert_d = [], update_d = [[(''_id'', JNum 1), (''n'', JNum 5)]], remove_d = []\<rparr> \<noteq> []
   \<and> ioTransform (\<lambda>d q opts. True)
      (\<lambda>q opts. \<lparr>insert_d = [], update_d = [[(''_id'', JNum 1), (''n'', JNum 5)]], remove_d = []\<rparr>)
      ''_id'' False \<lparr>query = Some (JObj []), options = None\<rparr>
      (Update (JObj []) [] None)
   = ([], False)"
  by (simp add: ioTransform_def)

text \<open>
  Claim C2 on a view whose primary key is \<open>id\<close>, with one removed document
  \<open>{id: 7}\<close>: the clause of the \<open>remove\<close> packet is \<open>{_id: 7}\<close>, keyed by the literal
  \<open>_id\<close> and not by the primary key.
\<close>

theorem remove_packet_keyed_by_id_not_primary_key:
  "ioTransform (\<lambda>d q opts. True)
      (\<lambda>q opts. \<lparr>insert_d = [], update_d = [], remove_d = [[(''id'', JNum 7)]]\<rparr>)
      ''id'' False \<lparr>query = Some (JObj []), options = None\<rparr>
      (Update (JObj []) [] None)
   = ([Remove (JObj [(''$or'', JArr [JObj [(''_id'', JV (JNum 7))]])])], True)
   \<and> removeQuery ''id'' [[(''id'', JNum 7)]]
      \<noteq> JObj [(''$or'', JArr [JObj [(''id'', JV (JNum 7))]])]"
  by (simp add: ioTransform_def removeQuery_def getProp_def updatePackets_def)



text \<open>
  Claim C4 on a view ordered by \<open>n\<close> ascending that holds \<open>{n: 5}\<close>, at an insert
  packet with the documents \<open>{n: 1}\<close> and \<open>{n: 9}\<close>. The bucket gives the indices 0 and
  2, and each round splices the whole payload at its index, so the data ends as
  \<open>1, 9, 1, 9, 5\<close>; splicing each document at its own index would give \<open>1, 5, 9\<close>.
\<close>

theorem ordered_insert_splices_whole_payload_each_round:
  "chainHandlerInsert
      (Some (\<lambda>x d. compareFunc hostEnv (Some \<lparr>key = ''n'', val = JNum 1\<rparr>) x d \<le> 0))
      (InsertDocs [[(''n'', JNum 1)], [(''n'', JNum 9)]])
      \<lparr>activeBucket = [[(''n'', JNum 5)]], privateData = [[(''n'', JNum 5)]]\<rparr>
   = \<lparr>activeBucket = [[(''n'', JNum 1)], [(''n'', JNum 5)], [(''n'', JNum 9)]],
      privateData = [[(''n'', JNum 1)], [(''n'', JNum 9)], [(''n'', JNum 1)], [(''n'', JNum 9)],
                     [(''n'', JNum 5)]]\<rparr>"
  by (simp add: chainHandlerInsert_def ActiveBucket_insert_def insertHandle_def decouple_def
      compareFunc_def getProp_def js_gt_def)

subsection \<open>Binding, registering and dropping\<close>



text \<open>
  Claim C6 on a fresh view bound with \<open>from\<close> to a collection whose \<open>_view\<close> list is
  empty: the view listens to the collection's \<open>drop\<close> event and has it as \<open>_from\<close>, and
  the \<open>_view\<close> list of the collection is still empty.
\<close>

theorem from_adds_no_back_reference:
  "(case View_new ''v'' oneCollection of
      (v, w) \<Rightarrow>
        (case View_from v (SourceCollection 0) w of
           Inr w' \<Rightarrow> v_from (views w' v) = Some 0 \<and> c_dropListeners (colls w' 0) = [v]
                      \<and> c_view (colls w' 0) = []
         | Inl e \<Rightarrow> False))"
  by (simp add: View_new_def Collection_new_def oneCollection_def emptyWorld_def View_from_def
      updColl_def updView_def Collection_onDrop_def ReactorIO_new_def Let_def)

text \<open>
  Claim C7 on a collection attached to database 0 with no view registered:
  \<open>collection.view('v')\<close> returns a view, \<open>db.viewExists('v')\<close> is false afterwards, and a
  second \<open>collection.view('v')\<close> returns another view instead of throwing.
\<close>

theorem collection_view_registers_nothing:
  "(case Collection_view 0 ''v'' oneCollection of
      Inr (Some v, w1) \<Rightarrow>
        \<not> Db_viewExists 0 ''v'' w1 \<and>
        (case Collection_view 0 ''v'' w1 of
           Inr (Some v', w2) \<Rightarrow> v' \<noteq> v \<and> c_view (colls w2 0) = [v, v']
         | _ \<Rightarrow> False)
    | _ \<Rightarrow> False)"
  by (simp add: Collection_view_def View_new_def Collection_new_def oneCollection_def
      emptyWorld_def View_from_def View_db_def publicData_def Db_viewExists_def
      updColl_def updView_def Collection_onDrop_def ReactorIO_new_def Let_def)


text \<open>
  What each step of \<open>drop\<close> does to the views, the collections, the registry and the
  events. Emitting \<open>drop\<close> on a collection only clears the \<open>_from\<close> of its listeners.
\<close>

lemma fold_collectionDropped:
  "fold (\<lambda>v. View_collectionDropped v True) vs w =
     w\<lparr>views := (\<lambda>x. if x \<in> set vs then (views w x)\<lparr>v_from := None\<rparr> else views w x)\<rparr>"
proof (induction vs arbitrary: w)
  case Nil
  show ?case by simp
next
  case (Cons a vs)
  have "fold (\<lambda>v. View_collectionDropped v True) (a # vs) w =
        fold (\<lambda>v. View_collectionDropped v True) vs (View_collectionDropped a True w)"
    by simp
  also have "\<dots> = (View_collectionDropped a True w)\<lparr>views :=
       (\<lambda>x. if x \<in> set vs then (views (View_collectionDropped a True w) x)\<lparr>v_from := None\<rparr>
            else views (View_collectionDropped a True w) x)\<rparr>"
    by (rule Cons.IH)
  also have "\<dots> = w\<lparr>views :=
       (\<lambda>x. if x \<in> set (a # vs) then (views w x)\<lparr>v_from := None\<rparr> else views w x)\<rparr>"
    by (simp add: View_collectionDropped_def updView_def fun_eq_iff)
  finally show ?case .
qed

lemma Collection_emitDrop_eq:
  "Collection_emitDrop c w =
     w\<lparr>views := (\<lambda>x. if x \<in> set (c_dropListeners (colls w c))
                       then (views w x)\<lparr>v_from := None\<rparr> else views w x),
       events := events w @ [Emit c ''drop'']\<rparr>"
  by (simp add: Collection_emitDrop_def fold_collectionDropped)

lemma emitDrop_proj:
  "colls (Collection_emitDrop c w) = colls w"
  "dbView (Collection_emitDrop c w) = dbView w"
  "events (Collection_emitDrop c w) = events w @ [Emit c ''drop'']"
  "views (Collection_emitDrop c w) x =
     (views w x)\<lparr>v_from := (if x \<in> set (c_dropListeners (colls w c)) then None
                              else v_from (views w x))\<rparr>"
  by (simp_all add: Collection_emitDrop_eq)

lemma Collection_drop_proj:
  "colls (snd (Collection_drop c w)) y = (colls w y)\<lparr>c_dropped := (c_dropped (colls w y) \<or> y = c)\<rparr>"
  "dbView (snd (Collection_drop c w)) = dbView w"
  "views (snd (Collection_drop c w)) x =
     (views w x)\<lparr>v_from := (if \<not> c_dropped (colls w c) \<and> x \<in> set (c_dropListeners (colls w c))
                              then None else v_from (views w x))\<rparr>"
  by (simp_all add: Collection_drop_def emitDrop_proj updColl_def)

lemma drop_from_proj:
  "views (drop_from v w) = views w"
  "dbView (drop_from v w) = dbView w"
  "events (drop_from v w) = events w"
  "colls (drop_from v w) y =
     (if v_from (views w v) = Some y
      then (colls w y)\<lparr>c_dropListeners := remove1 v (c_dropListeners (colls w y)),
                       c_view := remove1 v (c_view (colls w y))\<rparr>
      else colls w y)"
  by (simp_all add: drop_from_def Collection_removeView_def Collection_offDrop_def updColl_def
      split: option.split)

lemma drop_io_proj:
  "views (drop_io v w) = views w"
  "dbView (drop_io v w) = dbView w"
  "events (drop_io v w) = events w"
  "colls (drop_io v w) y =
     (if v_io (views w v) = Some y
      then (colls w y)\<lparr>c_chain := remove1 v (c_chain (colls w y))\<rparr>
      else colls w y)"
  by (simp_all add: drop_io_def ReactorIO_drop_def updColl_def split: option.split)

lemma drop_privateData_proj:
  "c_dropped (colls (drop_privateData v w) y) =
     (c_dropped (colls w y) \<or> v_privateData (views w v) = Some y)"
  "c_view (colls (drop_privateData v w) y) = c_view (colls w y)"
  "c_dropListeners (colls (drop_privateData v w) y) = c_dropListeners (colls w y)"
  "c_chain (colls (drop_privateData v w) y) = c_chain (colls w y)"
  "dbView (drop_privateData v w) = dbView w"
  by (auto simp add: drop_privateData_def Collection_drop_proj split: option.split)

lemma drop_privateData_views:
  "views (drop_privateData v w) x = (views w x)\<lparr>v_from := v_from (views (drop_privateData v w) x)\<rparr>"
  by (auto simp add: drop_privateData_def Collection_drop_proj split: option.split)

lemma drop_publicData_proj:
  "c_dropped (colls (drop_publicData v w) y) =
     (c_dropped (colls w y) \<or>
        (v_publicData (views w v) = Some y \<and> v_privateData (views w v) \<noteq> Some y))"
  "c_view (colls (drop_publicData v w) y) = c_view (colls w y)"
  "c_dropListeners (colls (drop_publicData v w) y) = c_dropListeners (colls w y)"
  "c_chain (colls (drop_publicData v w) y) = c_chain (colls w y)"
  "dbView (drop_publicData v w) = dbView w"
  by (auto simp add: drop_publicData_def Collection_drop_proj split: option.split)

lemma drop_publicData_views:
  "views (drop_publicData v w) x = (views w x)\<lparr>v_from := v_from (views (drop_publicData v w) x)\<rparr>"
  by (auto simp add: drop_publicData_def Collection_drop_proj split: option.split)

lemma drop_registry_proj:
  "colls (drop_registry v w) = colls w"
  "views (drop_registry v w) = views w"
  "events (drop_registry v w) = events w"
  "dbView (drop_registry v w) db n =
     (if v_db (views w v) = Some db \<and> v_name (views w v) \<noteq> [] \<and> n = v_name (views w v)
      then None else dbView w db n)"
  by (simp_all add: drop_registry_def split: option.split)

lemma view_fields_but_from:
  assumes "x' = x\<lparr>v_from := f\<rparr>"
  shows "v_name x' = v_name x" "v_state x' = v_state x" "v_io x' = v_io x" "v_db x' = v_db x"
    "v_privateData x' = v_privateData x" "v_publicData x' = v_publicData x"
    "v_transformEnabled x' = v_transformEnabled x"
  using assms by simp_all

lemmas drop_privateData_fields = view_fields_but_from [OF drop_privateData_views]
lemmas drop_publicData_fields = view_fields_but_from [OF drop_publicData_views]

text \<open>
  Claim C8, as the code has it. On a view that is not dropped, \<open>drop\<close> returns true and
  leaves the state \<open>dropped\<close>; the view's listener and its back-reference are taken out
  of the source it was bound to; its ReactorIO is unchained; the private collection and
  the public one are dropped; the registry entry under the view's name is deleted when
  the view has a database and its name is not the empty string, which is what the guard
  \<open>this._db && this._name\<close> lets through; the last things to happen are the \<open>drop\<close>
  event and, when a callback was passed, its call with \<open>(false, true)\<close>. A further
  \<open>drop\<close> returns false and leaves everything as it is.
\<close>

theorem View_drop_idempotent:
  assumes "\<not> isDropped (views w v)" and "v_privateData (views w v) = Some p"
  shows "\<exists>w'. View_drop v cb w = Inr (True, w')
           \<and> v_state (views w' v) = Some ''dropped''
           \<and> (\<forall>s. v_from (views w v) = Some s \<longrightarrow>
                  c_dropListeners (colls w' s) = remove1 v (c_dropListeners (colls w s))
                  \<and> c_view (colls w' s) = remove1 v (c_view (colls w s)))
           \<and> (\<forall>src. v_io (views w v) = Some src \<longrightarrow>
                  c_chain (colls w' src) = remove1 v (c_chain (colls w src)))
           \<and> c_dropped (colls w' p)
           \<and> (\<forall>pub. v_publicData (views w v) = Some pub \<longrightarrow> c_dropped (colls w' pub))
           \<and> (\<forall>db. v_db (views w v) = Some db \<and> v_name (views w v) \<noteq> [] \<longrightarrow>
                  dbView w' db (v_name (views w v)) = None)
           \<and> (\<exists>es. events w' = es @ [Emit p ''drop''] @ (if cb then [Callback False True] else []))
           \<and> View_drop v cb2 w' = Inr (False, w')"
proof -
  define w6 where "w6 = drop_registry v (drop_publicData v (drop_privateData v (drop_io v
      (updView v (\<lambda>x. x\<lparr>v_state := Some ''dropped''\<rparr>) (drop_from v w)))))"
  define w8 where "w8 = (if cb then (Collection_emitDrop p w6)\<lparr>events :=
      events (Collection_emitDrop p w6) @ [Callback False True]\<rparr> else Collection_emitDrop p w6)"
  define w9 where "w9 = updView v (\<lambda>x. x\<lparr>v_from := None, v_privateData := None,
      v_io := None, v_db := None\<rparr>) w8"
  have v6: "v_privateData (views w6 v) = Some p" "v_state (views w6 v) = Some ''dropped''"
    using assms(2)
    by (simp_all add: w6_def drop_registry_proj drop_publicData_fields drop_privateData_fields
        drop_io_proj drop_from_proj updView_def)
  have res: "View_drop v cb w = Inr (True, w9)"
    using assms(1) v6(1)
    by (simp add: View_drop_def Let_def w6_def [symmetric] w8_def w9_def)
  have st: "v_state (views w9 v) = Some ''dropped''"
    by (simp add: w9_def w8_def updView_def emitDrop_proj v6)
  have colls9: "colls w9 = colls w6"
    by (simp add: w9_def w8_def updView_def emitDrop_proj)
  have db9: "dbView w9 = dbView w6"
    by (simp add: w9_def w8_def updView_def emitDrop_proj)
  have ev9: "\<exists>es. events w9 = es @ [Emit p ''drop''] @ (if cb then [Callback False True] else [])"
    by (simp add: w9_def w8_def updView_def emitDrop_proj)
  have src: "c_dropListeners (colls w6 s) = remove1 v (c_dropListeners (colls w s))
             \<and> c_view (colls w6 s) = remove1 v (c_view (colls w s))"
    if "v_from (views w v) = Some s" for s
    using that
    by (simp add: w6_def drop_registry_proj drop_publicData_proj drop_privateData_proj
        drop_io_proj drop_from_proj updView_def)
  have io: "c_chain (colls w6 s) = remove1 v (c_chain (colls w s))"
    if "v_io (views w v) = Some s" for s
    using that
    by (simp add: w6_def drop_registry_proj drop_publicData_proj drop_privateData_proj
        drop_io_proj drop_from_proj updView_def)
  have priv: "c_dropped (colls w6 p)"
    using assms(2)
    by (simp add: w6_def drop_registry_proj drop_publicData_proj drop_privateData_proj
        drop_io_proj drop_from_proj updView_def)
  have pub: "c_dropped (colls w6 pub)" if "v_publicData (views w v) = Some pub" for pub
    using that assms(2)
    by (simp add: w6_def drop_registry_proj drop_publicData_proj drop_privateData_proj
        drop_publicData_fields drop_privateData_fields drop_io_proj drop_from_proj updView_def)
  have reg: "dbView w6 db (v_name (views w v)) = None"
    if "v_db (views w v) = Some db \<and> v_name (views w v) \<noteq> []" for db
    using that
    by (simp add: w6_def drop_registry_proj drop_publicData_proj drop_privateData_proj
        drop_publicData_fields drop_privateData_fields drop_io_proj drop_from_proj updView_def)
  have again: "View_drop v cb2 w9 = Inr (False, w9)"
    using st by (simp add: View_drop_def isDropped_def)
  show ?thesis
    using res st src io priv pub reg ev9 again by (simp add: colls9 db9)
qed

text \<open>
  The view of \<open>boundWorld\<close>: bound, registered and listed in the collection.
\<close>

lemma boundWorld_fields:
  "v_state (views boundWorld 0) = None" "v_privateData (views boundWorld 0) = Some 1"
  "v_from (views boundWorld 0) = Some 0" "v_io (views boundWorld 0) = Some 0"
  "v_db (views boundWorld 0) = Some 0" "v_name (views boundWorld 0) = ''v''"
  "c_view (colls boundWorld 0) = [0]" "c_dropListeners (colls boundWorld 0) = [0]"
  "c_chain (colls boundWorld 0) = [0]" "dbView boundWorld 0 ''v'' = Some 0"
  by (simp_all add: boundWorld_def Db_view_def View_new_def Collection_new_def oneCollection_def
      emptyWorld_def View_from_def View_db_def publicData_def Collection_addView_def
      updColl_def updView_def Collection_onDrop_def ReactorIO_new_def Let_def)

theorem View_drop_idempotent_witness:
  "\<not> isDropped (views boundWorld 0) \<and> v_privateData (views boundWorld 0) = Some 1
   \<and> Db_viewExists 0 ''v'' boundWorld
   \<and> (\<exists>w'. View_drop 0 True boundWorld = Inr (True, w')
          \<and> isDropped (views w' 0)
          \<and> c_view (colls w' 0) = [] \<and> c_dropListeners (colls w' 0) = []
          \<and> c_chain (colls w' 0) = [] \<and> c_dropped (colls w' 1)
          \<and> \<not> Db_viewExists 0 ''v'' w'
          \<and> View_drop 0 True w' = Inr (False, w'))"
  using View_drop_idempotent [of boundWorld 0 1 True True]
  by (auto simp add: boundWorld_fields isDropped_def Db_viewExists_def)

text \<open>
  The claim as it was stated fails on a view registered under the empty name:
  \<open>db.view('')\<close> registers it, \<open>drop\<close> returns true and leaves the state \<open>dropped\<close>,
  and the registry still holds the entry, since the empty name is falsy.
\<close>

theorem drop_keeps_entry_under_empty_name_counterexample:
  "(case Db_view 0 [] oneCollection of
      Inr (v, w) \<Rightarrow>
        \<not> isDropped (views w v) \<and> Db_viewExists 0 [] w \<and>
        (case View_drop v True w of
           Inr (r, w') \<Rightarrow> r \<and> isDropped (views w' v) \<and> Db_viewExists 0 [] w'
         | Inl e \<Rightarrow> False)
    | Inl e \<Rightarrow> False)"
  by (simp add: Db_view_def View_new_def Collection_new_def oneCollection_def emptyWorld_def
      View_db_def publicData_def Db_viewExists_def isDropped_def View_drop_def drop_from_def
      drop_io_def drop_privateData_def drop_publicData_def drop_registry_def
      Collection_drop_def Collection_emitDrop_def View_collectionDropped_def
      updColl_def updView_def Let_def)

subsection \<open>Further facts on the paths of the view\<close>

text \<open>
  The insert case with one document in the payload, and without \<open>$orderBy\<close>; what
  \<open>from\<close> and \<open>Collection.view\<close> leave untouched; what a drop of the source does to
  the views that listen to it; when \<open>Collection.view\<close> throws.
\<close>


lemma ordered_insert_single_document:
  "chainHandlerInsert (Some notAfter) (InsertDoc d) s =
     \<lparr>activeBucket = snd (ActiveBucket_insert notAfter (activeBucket s) d),
      privateData = insertHandle [d] (fst (ActiveBucket_insert notAfter (activeBucket s) d))
                      (privateData s)\<rparr>"
  by (simp add: chainHandlerInsert_def decouple_def split: prod.split)

lemma unordered_insert_appends:
  "privateData (chainHandlerInsert None (InsertDocs ds) s) = privateData s @ ds"
  "privateData (chainHandlerInsert None (InsertDoc d) s) = privateData s @ [d]"
proof -
  have "map decouple ds = ds"
    by (induction ds) (simp_all add: decouple_def)
  then show "privateData (chainHandlerInsert None (InsertDocs ds) s) = privateData s @ ds"
    by (simp add: chainHandlerInsert_def insertHandle_def)
  show "privateData (chainHandlerInsert None (InsertDoc d) s) = privateData s @ [d]"
    by (simp add: chainHandlerInsert_def decouple_def insertHandle_def)
qed

lemma View_from_keeps_view_lists:
  assumes "View_from v src w = Inr w'"
  shows "c_view (colls w' c) = c_view (colls w c)"
  using assms
  by (auto simp add: View_from_def Let_def updColl_def updView_def Collection_onDrop_def
      Collection_offDrop_def ReactorIO_new_def ReactorIO_drop_def
      split: option.splits source.splits)

lemma Collection_drop_forgets_source:
  assumes "\<not> c_dropped (colls w s)" and "v \<in> set (c_dropListeners (colls w s))"
  shows "v_from (views (snd (Collection_drop s w)) v) = None"
    and "v_state (views (snd (Collection_drop s w)) v) = v_state (views w v)"
  using assms by (simp_all add: Collection_drop_proj)

lemma Collection_view_keeps_registry:
  assumes "Collection_view c name w = Inr (r, w')"
  shows "dbView w' = dbView w"
  using assms
  by (auto simp add: Collection_view_def View_new_def Collection_new_def View_db_def
      View_from_def Let_def updColl_def updView_def Collection_onDrop_def
      Collection_offDrop_def ReactorIO_new_def ReactorIO_drop_def publicData_def
      split: option.splits if_splits sum.splits prod.splits)

lemma Collection_view_throws_on_registered_name:
  assumes "c_db (colls w c) = Some db" and "dbView w db name = Some x"
  shows "\<exists>msg. Collection_view c name w = Inl (Thrown (msg @ name))"
  using assms by (simp add: Collection_view_def)

end
